theory Spec2Isabelle
  imports Main "HOL-Library.Product_Lexorder"
begin

section \<open>Python values that cross the database boundary\<close>

text \<open>
  The database helper (\<^verbatim>\<open>src/bot/helpers/database.py\<close>) talks to a PostgreSQL store
  through one psycopg2 connection. The driver hands back rows as Python tuples whose
  members are \<^verbatim>\<open>None\<close>, \<^verbatim>\<open>bool\<close>, \<^verbatim>\<open>int\<close>, \<^verbatim>\<open>str\<close> or
  \<^verbatim>\<open>datetime\<close> objects. A \<^verbatim>\<open>datetime\<close> is a struct of calendar fields with
  microsecond resolution; Python compares two of them field by field, most significant
  first.
\<close>

datatype datetime =
  Datetime (year: nat) (month: nat) (day: nat) (hour: nat) (minute: nat) (second: nat)
    (microsecond: nat)

definition dt_key :: "datetime \<Rightarrow> nat \<times> nat \<times> nat \<times> nat \<times> nat \<times> nat \<times> nat" where
  "dt_key t = (year t, month t, day t, hour t, minute t, second t, microsecond t)"

definition dt_le :: "datetime \<Rightarrow> datetime \<Rightarrow> bool" where
  "dt_le a b = (dt_key a \<le> dt_key b)"

definition is_leap :: "nat \<Rightarrow> bool" where
  "is_leap y = (y mod 4 = 0 \<and> (y mod 100 \<noteq> 0 \<or> y mod 400 = 0))"

definition days_in_month :: "nat \<Rightarrow> nat \<Rightarrow> nat" where
  "days_in_month y m =
     (if m = 2 then (if is_leap y then 29 else 28)
      else if m = 4 \<or> m = 6 \<or> m = 9 \<or> m = 11 then 30 else 31)"

definition valid_datetime :: "datetime \<Rightarrow> bool" where
  "valid_datetime t =
     (1 \<le> year t \<and> year t \<le> 9999 \<and> 1 \<le> month t \<and> month t \<le> 12 \<and>
      1 \<le> day t \<and> day t \<le> days_in_month (year t) (month t) \<and>
      hour t < 24 \<and> minute t < 60 \<and> second t < 60 \<and> microsecond t < 1000000)"

datatype pyval = PNone | PBool bool | PInt int | PStr string | PDatetime datetime

text \<open>A result row is a Python tuple; a returned \<^verbatim>\<open>dict\<close> literal keeps its keys in order.\<close>

type_synonym row = "pyval list"

type_synonym pydict = "(string \<times> pyval) list"

datatype error =
  UniqueViolation | ForeignKeyViolation | NumericValueOutOfRange | OverflowError |
  ValueError | TypeError | IndexError

text \<open>Truth value of an object in a condition (\<^verbatim>\<open>if is_fulfilled:\<close>).\<close>

fun truthy :: "pyval \<Rightarrow> bool" where
  "truthy PNone = False"
| "truthy (PBool b) = b"
| "truthy (PInt i) = (i \<noteq> 0)"
| "truthy (PStr s) = (s \<noteq> [])"
| "truthy (PDatetime t) = True"

text \<open>
  \<^verbatim>\<open>next(cur, default)\<close>: the next row of the cursor, or the default once the cursor is
  exhausted. Tuple unpacking \<^verbatim>\<open>(a, b, c) = value\<close> raises \<^verbatim>\<open>ValueError\<close> on a tuple of
  another length.
\<close>

definition py_next :: "'a list \<Rightarrow> 'a \<Rightarrow> 'a \<times> 'a list" where
  "py_next cur dflt = (case cur of [] \<Rightarrow> (dflt, []) | r # rs \<Rightarrow> (r, rs))"

fun unpack3 :: "row \<Rightarrow> error + pyval \<times> pyval \<times> pyval" where
  "unpack3 [a, b, c] = Inr (a, b, c)"
| "unpack3 _ = Inl ValueError"

fun unpack6 :: "row \<Rightarrow> error + pyval \<times> pyval \<times> pyval \<times> pyval \<times> pyval \<times> pyval" where
  "unpack6 [a, b, c, d, e, f] = Inr (a, b, c, d, e, f)"
| "unpack6 _ = Inl ValueError"

fun unpack7 ::
  "row \<Rightarrow> error + pyval \<times> pyval \<times> pyval \<times> pyval \<times> pyval \<times> pyval \<times> pyval" where
  "unpack7 [a, b, c, d, e, f, g] = Inr (a, b, c, d, e, f, g)"
| "unpack7 _ = Inl ValueError"

section \<open>The store: two tables behind one connection\<close>

text \<open>
  \<^verbatim>\<open>create_schema\<close> declares \<^verbatim>\<open>users(user_id PRIMARY KEY, name, user_name)\<close> and
  \<^verbatim>\<open>requests(user_id NOT NULL, is_english NOT NULL, message_id PRIMARY KEY, req_time,
  fulfill_message_id, fulfill_time, fulfilled_by)\<close> with \<^verbatim>\<open>user_id\<close> referencing
  \<^verbatim>\<open>users\<close>. Columns without \<^verbatim>\<open>NOT NULL\<close> are nullable. Identifiers are Python
  integers; text is a string over one-byte code points. The identifier columns are
  \<^verbatim>\<open>BIGINT\<close>: a statement that stores an integer outside the signed 64-bit range in
  one of them is refused by the store (\<^verbatim>\<open>NumericValueOutOfRange\<close>) before any row is
  touched. An integer of any size may be compared with such a column; outside the range
  it matches no row.
\<close>

definition in_bigint :: "int \<Rightarrow> bool" where
  "in_bigint i = (- (2 ^ 63) \<le> i \<and> i < 2 ^ 63)"

definition bigint_ok :: "int option \<Rightarrow> bool" where
  "bigint_ok x = (case x of None \<Rightarrow> True | Some i \<Rightarrow> in_bigint i)"

record users_row =
  users_user_id :: int
  users_name :: "string option"
  users_user_name :: "string option"

record requests_row =
  user_id :: int
  is_english :: bool
  message_id :: int
  req_time :: "datetime option"
  fulfill_message_id :: "int option"
  fulfill_time :: "datetime option"
  fulfilled_by :: "int option"

record database =
  users :: "users_row list"
  requests :: "requests_row list"

text \<open>
  psycopg2 opens a transaction at the first statement and keeps it open until
  \<^verbatim>\<open>commit()\<close> or \<^verbatim>\<open>rollback()\<close> is called on the connection. The connection
  therefore carries two copies of the data: what was last committed, and what the open
  transaction sees (and every query of this process reads).
\<close>

record connection =
  committed :: database
  working :: database

definition empty_database :: database where
  "empty_database = \<lparr>users = [], requests = []\<rparr>"

definition empty_connection :: connection where
  "empty_connection = \<lparr>committed = empty_database, working = empty_database\<rparr>"

definition commit :: "connection \<Rightarrow> connection" where
  "commit c = c\<lparr>committed := working c\<rparr>"

definition rollback :: "connection \<Rightarrow> connection" where
  "rollback c = c\<lparr>working := committed c\<rparr>"

text \<open>
  The shape shared by the writing methods:
  \<^verbatim>\<open>try: cur.execute(stmt)  except Exception as ex: rollback(); raise ex
  finally: commit(); cur.close()\<close>.
  A statement that fails changes nothing; the handler rolls the transaction back, the
  \<^verbatim>\<open>finally\<close> block commits, and the exception reaches the caller.
\<close>

definition execute_and_commit ::
  "(database \<Rightarrow> error + database) \<Rightarrow> connection \<Rightarrow> (error + unit) \<times> connection" where
  "execute_and_commit stmt c =
     (case stmt (working c) of
        Inl ex \<Rightarrow> (Inl ex, commit (rollback c))
      | Inr d \<Rightarrow> (Inr (), commit (c\<lparr>working := d\<rparr>)))"

text \<open>
  \<^verbatim>\<open>update_user\<close> has the same \<^verbatim>\<open>try\<close>/\<^verbatim>\<open>except\<close> but its \<^verbatim>\<open>finally\<close> block only
  closes the cursor: the statement stays in the open transaction.
\<close>

definition execute_no_commit ::
  "(database \<Rightarrow> error + database) \<Rightarrow> connection \<Rightarrow> (error + unit) \<times> connection" where
  "execute_no_commit stmt c =
     (case stmt (working c) of
        Inl ex \<Rightarrow> (Inl ex, rollback c)
      | Inr d \<Rightarrow> (Inr (), c\<lparr>working := d\<rparr>))"

text \<open>SQL comparison with a parameter that may be \<^verbatim>\<open>NULL\<close>: never true on \<^verbatim>\<open>NULL\<close>.\<close>

definition sql_eq :: "'a option \<Rightarrow> 'a option \<Rightarrow> bool" where
  "sql_eq x y = (case (x, y) of (Some a, Some b) \<Rightarrow> a = b | _ \<Rightarrow> False)"

subsection \<open>User registry\<close>

definition insert_user :: "int \<Rightarrow> string option \<Rightarrow> string option \<Rightarrow> database \<Rightarrow> error + database" where
  "insert_user uid nm uname d =
     (if \<not> in_bigint uid then Inl NumericValueOutOfRange
      else if uid \<in> users_user_id ` set (users d) then Inl UniqueViolation
      else Inr (d\<lparr>users := users d @
             [\<lparr>users_user_id = uid, users_name = nm, users_user_name = uname\<rparr>]\<rparr>))"

definition add_user ::
  "connection \<Rightarrow> int \<Rightarrow> string option \<Rightarrow> string option \<Rightarrow> (error + unit) \<times> connection" where
  "add_user c uid nm uname = execute_and_commit (insert_user uid nm uname) c"

definition update_user ::
  "connection \<Rightarrow> int \<Rightarrow> string option \<Rightarrow> string option \<Rightarrow> (error + unit) \<times> connection" where
  "update_user c uid nm uname =
     execute_no_commit
       (\<lambda>d. Inr (d\<lparr>users :=
          map (\<lambda>u. if users_user_id u = uid
                    then u\<lparr>users_name := nm, users_user_name := uname\<rparr> else u)
              (users d)\<rparr>)) c"

subsection \<open>Request ledger: writes\<close>

text \<open>
  \<^verbatim>\<open>INSERT INTO requests (user_id, is_english, message_id, req_time)\<close>: the remaining
  columns take their default \<^verbatim>\<open>NULL\<close>. The values are converted to the column types
  first; the primary-key index is checked when the row is inserted, the foreign key at
  the end of the statement.
\<close>

definition insert_request ::
  "int \<Rightarrow> bool \<Rightarrow> int \<Rightarrow> datetime \<Rightarrow> database \<Rightarrow> error + database" where
  "insert_request uid eng mid now d =
     (if \<not> in_bigint uid \<or> \<not> in_bigint mid then Inl NumericValueOutOfRange
      else if mid \<in> message_id ` set (requests d) then Inl UniqueViolation
      else if uid \<notin> users_user_id ` set (users d) then Inl ForeignKeyViolation
      else Inr (d\<lparr>requests := requests d @
             [\<lparr>user_id = uid, is_english = eng, message_id = mid, req_time = Some now,
               fulfill_message_id = None, fulfill_time = None, fulfilled_by = None\<rparr>]\<rparr>))"

text \<open>The argument \<open>now\<close> is the value of \<^verbatim>\<open>datetime.now()\<close> read by the call.\<close>

definition register_request ::
  "connection \<Rightarrow> int \<Rightarrow> bool \<Rightarrow> int \<Rightarrow> datetime \<Rightarrow> (error + unit) \<times> connection" where
  "register_request c uid eng mid now = execute_and_commit (insert_request uid eng mid now) c"

definition delete_request :: "connection \<Rightarrow> int \<Rightarrow> (error + unit) \<times> connection" where
  "delete_request c mid =
     execute_and_commit
       (\<lambda>d. Inr (d\<lparr>requests := filter (\<lambda>r. message_id r \<noteq> mid) (requests d)\<rparr>)) c"

definition mark_request_not_done ::
  "connection \<Rightarrow> int \<Rightarrow> int \<Rightarrow> (error + unit) \<times> connection" where
  "mark_request_not_done c uid mid =
     execute_and_commit
       (\<lambda>d. Inr (d\<lparr>requests :=
          map (\<lambda>r. if user_id r = uid \<and> message_id r = mid
                    then r\<lparr>fulfill_message_id := None, fulfill_time := None,
                           fulfilled_by := None\<rparr>
                    else r)
              (requests d)\<rparr>)) c"

definition register_request_fulfillment ::
  "connection \<Rightarrow> int \<Rightarrow> int \<Rightarrow> int option \<Rightarrow> int option \<Rightarrow> datetime
     \<Rightarrow> (error + unit) \<times> connection" where
  "register_request_fulfillment c uid mid fulfill_id fby now =
     execute_and_commit
       (\<lambda>d. if \<not> bigint_ok fulfill_id \<or> \<not> bigint_ok fby then Inl NumericValueOutOfRange
             else Inr (d\<lparr>requests :=
               map (\<lambda>r. if user_id r = uid \<and> message_id r = mid
                         then r\<lparr>fulfill_message_id := fulfill_id, fulfill_time := Some now,
                                fulfilled_by := fby\<rparr>
                         else r)
                   (requests d)\<rparr>)) c"

definition update_fulfilled_by ::
  "connection \<Rightarrow> int option \<Rightarrow> int option \<Rightarrow> (error + unit) \<times> connection" where
  "update_fulfilled_by c fmid fby =
     execute_and_commit
       (\<lambda>d. if \<not> bigint_ok fby then Inl NumericValueOutOfRange
             else Inr (d\<lparr>requests :=
               map (\<lambda>r. if sql_eq (fulfill_message_id r) fmid then r\<lparr>fulfilled_by := fby\<rparr>
                         else r)
                   (requests d)\<rparr>)) c"

section \<open>Sequences of calls\<close>

text \<open>
  A caller's history on the connection: the registry and ledger methods with their
  arguments, each reading of \<^verbatim>\<open>datetime.now()\<close> made explicit. A call that raises
  leaves the connection in the state its handlers produce, and the history goes on from
  there. Without \<open>Add_user\<close> no request could ever be stored, since every insert into
  \<^verbatim>\<open>requests\<close> needs its user.
\<close>

datatype call =
  Add_user int "string option" "string option"
| Update_user int "string option" "string option"
| Register_request int bool int datetime
| Register_request_fulfillment int int "int option" "int option" datetime
| Mark_request_not_done int int
| Update_fulfilled_by "int option" "int option"
| Delete_request int

fun step :: "connection \<Rightarrow> call \<Rightarrow> connection" where
  "step c (Add_user uid nm uname) = snd (add_user c uid nm uname)"
| "step c (Update_user uid nm uname) = snd (update_user c uid nm uname)"
| "step c (Register_request uid eng mid now) = snd (register_request c uid eng mid now)"
| "step c (Register_request_fulfillment uid mid fulfill_id fby now) =
     snd (register_request_fulfillment c uid mid fulfill_id fby now)"
| "step c (Mark_request_not_done uid mid) = snd (mark_request_not_done c uid mid)"
| "step c (Update_fulfilled_by fmid fby) = snd (update_fulfilled_by c fmid fby)"
| "step c (Delete_request mid) = snd (delete_request c mid)"

fun run :: "connection \<Rightarrow> call list \<Rightarrow> connection" where
  "run c [] = c"
| "run c (x # xs) = run (step c x) xs"

text \<open>A request is pending (no fulfilment field set) or fulfilled (all three set).\<close>

definition group_ok :: "requests_row \<Rightarrow> bool" where
  "group_ok r =
     ((fulfill_message_id r = None \<and> fulfill_time r = None \<and> fulfilled_by r = None) \<or>
      (fulfill_message_id r \<noteq> None \<and> fulfill_time r \<noteq> None \<and> fulfilled_by r \<noteq> None))"

definition group_inv :: "database \<Rightarrow> bool" where
  "group_inv d = list_all group_ok (requests d)"

text \<open>
  \<open>fulfillment_args_given\<close>: \<^verbatim>\<open>register_request_fulfillment\<close> receives a
  \<^verbatim>\<open>fulfill_id\<close> and a \<^verbatim>\<open>fulfilled_by\<close> other than \<^verbatim>\<open>None\<close>.
  \<open>fulfiller_args_given\<close> asks the same of the \<^verbatim>\<open>fulfilled_by\<close> passed to
  \<^verbatim>\<open>update_fulfilled_by\<close>, whose parameters carry no type annotation.
\<close>

fun fulfillment_args_given :: "call \<Rightarrow> bool" where
  "fulfillment_args_given (Register_request_fulfillment uid mid fulfill_id fby now) =
     (fulfill_id \<noteq> None \<and> fby \<noteq> None)"
| "fulfillment_args_given _ = True"

fun fulfiller_args_given :: "call \<Rightarrow> bool" where
  "fulfiller_args_given (Register_request_fulfillment uid mid fulfill_id fby now) =
     (fulfill_id \<noteq> None \<and> fby \<noteq> None)"
| "fulfiller_args_given (Update_fulfilled_by fmid fby) = (fby \<noteq> None)"
| "fulfiller_args_given _ = True"

subsection \<open>Example states and histories\<close>

definition frame_example :: connection where
  "frame_example =
     \<lparr>committed = empty_database,
      working =
        \<lparr>users = [\<lparr>users_user_id = 42, users_name = Some ''Ann'', users_user_name = None\<rparr>],
         requests =
           [\<lparr>user_id = 42, is_english = True, message_id = 1001,
             req_time = Some (Datetime 2024 1 3 9 0 0 0),
             fulfill_message_id = Some 2002,
             fulfill_time = Some (Datetime 2024 1 4 9 0 0 0), fulfilled_by = Some 7\<rparr>,
            \<lparr>user_id = 42, is_english = False, message_id = 1002,
             req_time = Some (Datetime 2024 1 5 9 0 0 0),
             fulfill_message_id = None, fulfill_time = None, fulfilled_by = None\<rparr>]\<rparr>\<rparr>"


definition torn_group_calls :: "call list" where
  "torn_group_calls =
     [Add_user 42 (Some ''Ann'') None,
      Register_request 42 True 1001 (Datetime 2024 1 3 9 0 0 0),
      Register_request_fulfillment 42 1001 (Some 2002) (Some 7) (Datetime 2024 1 4 9 0 0 0),
      Update_fulfilled_by (Some 2002) None]"

definition reattributed_calls :: "call list" where
  "reattributed_calls =
     [Add_user 42 (Some ''Ann'') None,
      Register_request 42 True 1001 (Datetime 2024 1 3 9 0 0 0),
      Register_request_fulfillment 42 1001 (Some 2002) (Some 7) (Datetime 2024 1 4 9 0 0 0),
      Update_fulfilled_by (Some 2002) (Some 8)]"

section \<open>Request and fulfilment times\<close>

text \<open>
  Time order of a row: a fulfilment time, when present, is not before the request time.
  A row with a fulfilment time and no request time does not satisfy it.
\<close>

definition time_ok :: "requests_row \<Rightarrow> bool" where
  "time_ok r =
     (case fulfill_time r of
        None \<Rightarrow> True
      | Some f \<Rightarrow> (case req_time r of None \<Rightarrow> False | Some q \<Rightarrow> dt_le q f))"

definition time_inv :: "database \<Rightarrow> bool" where
  "time_inv d = list_all time_ok (requests d)"

text \<open>
  The readings of \<^verbatim>\<open>datetime.now()\<close> along a history, in call order, and the
  condition that the wall clock (naive local time) never steps back between them.
\<close>

fun clock_readings :: "call list \<Rightarrow> datetime list" where
  "clock_readings [] = []"
| "clock_readings (Register_request uid eng mid now # xs) = now # clock_readings xs"
| "clock_readings (Register_request_fulfillment uid mid fulfill_id fby now # xs) =
     now # clock_readings xs"
| "clock_readings (x # xs) = clock_readings xs"

definition clock_never_steps_back :: "call list \<Rightarrow> bool" where
  "clock_never_steps_back calls = sorted_wrt dt_le (clock_readings calls)"

text \<open>
  The invariant carried along a history: every stored time is ordered within its row and
  is not after any reading still to come.
\<close>

definition row_settled :: "datetime list \<Rightarrow> requests_row \<Rightarrow> bool" where
  "row_settled ts r =
     (case req_time r of
        None \<Rightarrow> False
      | Some q \<Rightarrow>
          list_all (dt_le q) ts \<and>
          (case fulfill_time r of
             None \<Rightarrow> True
           | Some f \<Rightarrow> dt_le q f \<and> list_all (dt_le f) ts))"

definition settled :: "datetime list \<Rightarrow> database \<Rightarrow> bool" where
  "settled ts d = list_all (row_settled ts) (requests d)"

definition clock_back_calls :: "call list" where
  "clock_back_calls =
     [Add_user 42 (Some ''Ann'') None,
      Register_request 42 True 1001 (Datetime 2024 10 27 2 30 0 0),
      Register_request_fulfillment 42 1001 (Some 2002) (Some 7) (Datetime 2024 10 27 2 10 0 0)]"

definition clock_forward_calls :: "call list" where
  "clock_forward_calls =
     [Add_user 42 (Some ''Ann'') None,
      Register_request 42 True 1001 (Datetime 2024 1 3 9 0 0 0),
      Register_request_fulfillment 42 1001 (Some 2002) (Some 7) (Datetime 2024 1 10 9 0 0 0)]"

section \<open>Lookups\<close>

text \<open>
  The reading methods share
  \<^verbatim>\<open>try: cur.execute(query); ...  except Exception as ex: rollback(); raise ex
  finally: cur.close()\<close>;
  \<^verbatim>\<open>get_leaderboard\<close>, \<^verbatim>\<open>get_weekly_stats\<close> and \<^verbatim>\<open>get_backup_data\<close> also commit in
  their \<^verbatim>\<open>finally\<close> block.
\<close>

definition query_no_commit ::
  "(database \<Rightarrow> error + 'a) \<Rightarrow> connection \<Rightarrow> (error + 'a) \<times> connection" where
  "query_no_commit body c =
     (case body (working c) of
        Inl ex \<Rightarrow> (Inl ex, rollback c)
      | Inr v \<Rightarrow> (Inr v, c))"

definition query_and_commit ::
  "(database \<Rightarrow> error + 'a) \<Rightarrow> connection \<Rightarrow> (error + 'a) \<times> connection" where
  "query_and_commit body c =
     (case body (working c) of
        Inl ex \<Rightarrow> (Inl ex, commit (rollback c))
      | Inr v \<Rightarrow> (Inr v, commit c))"

text \<open>How the driver hands a nullable column over.\<close>

definition of_text :: "string option \<Rightarrow> pyval" where
  "of_text x = (case x of None \<Rightarrow> PNone | Some s \<Rightarrow> PStr s)"

definition of_bigint :: "int option \<Rightarrow> pyval" where
  "of_bigint x = (case x of None \<Rightarrow> PNone | Some i \<Rightarrow> PInt i)"

definition of_timestamp :: "datetime option \<Rightarrow> pyval" where
  "of_timestamp x = (case x of None \<Rightarrow> PNone | Some t \<Rightarrow> PDatetime t)"

text \<open>
  \<^verbatim>\<open>ORDER BY\<close> on a timestamp column: ascending order puts \<^verbatim>\<open>NULL\<close> last, descending
  order is its reverse.
\<close>

definition ts_key :: "datetime option \<Rightarrow> nat \<times> nat \<times> nat \<times> nat \<times> nat \<times> nat \<times> nat \<times> nat" where
  "ts_key x = (case x of None \<Rightarrow> (1, 0, 0, 0, 0, 0, 0, 0) | Some t \<Rightarrow> (0, dt_key t))"

definition get_user_details ::
  "connection \<Rightarrow> int \<Rightarrow> (error + pydict option) \<times> connection" where
  "get_user_details c uid =
     query_no_commit
       (\<lambda>d. let cur = map (\<lambda>u. [PInt (users_user_id u), of_text (users_name u),
                                 of_text (users_user_name u)])
                         (filter (\<lambda>u. users_user_id u = uid) (users d))
             in case unpack3 (fst (py_next cur [PNone, PNone, PNone])) of
                  Inl ex \<Rightarrow> Inl ex
                | Inr (usr_id, name, user_name) \<Rightarrow>
                    Inr (if usr_id \<noteq> PNone
                         then Some [(''user_id'', usr_id), (''name'', name),
                                    (''user_name'', user_name)]
                         else None)) c"

text \<open>
  \<^verbatim>\<open>(usr_id) = next(cur, (None))\<close>: the parentheses build no tuple, so the name is bound
  to the whole row (a one-element tuple) or to the default \<^verbatim>\<open>None\<close>.
\<close>

definition get_user :: "connection \<Rightarrow> int \<Rightarrow> (error + row option) \<times> connection" where
  "get_user c uid =
     query_no_commit
       (\<lambda>d. let cur = map (\<lambda>u. [PInt (users_user_id u)])
                         (filter (\<lambda>u. users_user_id u = uid) (users d));
                 usr_id = fst (py_next (map Some cur) None)
             in Inr usr_id) c"

definition get_user_last_request ::
  "connection \<Rightarrow> int \<Rightarrow> (error + pydict) \<times> connection" where
  "get_user_last_request c uid =
     query_no_commit
       (\<lambda>d. let cur = map (\<lambda>r. [PInt (user_id r), PBool (is_english r), PInt (message_id r),
                                 of_timestamp (req_time r), of_bigint (fulfill_message_id r),
                                 of_timestamp (fulfill_time r)])
                         (take 1 (rev (sort_key message_id
                            (filter (\<lambda>r. user_id r = uid) (requests d)))))
             in case unpack6 (fst (py_next cur [PNone, PNone, PNone, PNone, PNone, PNone])) of
                  Inl ex \<Rightarrow> Inl ex
                | Inr (usr_id, is_eng, msg_id, req_t, fulfill_msg_id, fulfill_t) \<Rightarrow>
                    Inr [(''user_id'', usr_id), (''is_english'', is_eng),
                         (''message_id'', msg_id), (''req_time'', req_t),
                         (''fulfill_message_id'', fulfill_msg_id),
                         (''fulfill_time'', fulfill_t)]) c"

definition get_oldest_request_time :: "connection \<Rightarrow> (error + row option) \<times> connection" where
  "get_oldest_request_time c =
     query_no_commit
       (\<lambda>d. let cur = map (\<lambda>r. [of_timestamp (req_time r)])
                         (take 1 (sort_key (\<lambda>r. ts_key (req_time r)) (requests d)));
                 req_t = fst (py_next (map Some cur) None)
             in Inr req_t) c"

definition get_latest_fulfilled :: "connection \<Rightarrow> (error + pydict) \<times> connection" where
  "get_latest_fulfilled c =
     query_no_commit
       (\<lambda>d. let cur = map (\<lambda>r. [PInt (user_id r), PBool (is_english r), PInt (message_id r),
                                 of_timestamp (req_time r), of_bigint (fulfill_message_id r),
                                 of_timestamp (fulfill_time r), of_bigint (fulfilled_by r)])
                         (take 1 (rev (sort_key (\<lambda>r. ts_key (fulfill_time r))
                            (filter (\<lambda>r. fulfill_time r \<noteq> None) (requests d)))))
             in case unpack7
                  (fst (py_next cur [PNone, PNone, PNone, PNone, PNone, PNone, PNone])) of
                  Inl ex \<Rightarrow> Inl ex
                | Inr (usr_id, is_eng, msg_id, req_t, fulfill_msg_id, fulfill_t, fby) \<Rightarrow>
                    Inr [(''user_id'', usr_id), (''is_english'', is_eng),
                         (''message_id'', msg_id), (''req_time'', req_t),
                         (''fulfill_message_id'', fulfill_msg_id),
                         (''fulfill_time'', fulfill_t), (''fulfilled_by'', fby)]) c"

text \<open>What the two dictionary-returning lookups give when no row matches.\<close>

definition no_last_request :: pydict where
  "no_last_request =
     [(''user_id'', PNone), (''is_english'', PNone), (''message_id'', PNone),
      (''req_time'', PNone), (''fulfill_message_id'', PNone), (''fulfill_time'', PNone)]"

definition no_latest_fulfilled :: pydict where
  "no_latest_fulfilled =
     [(''user_id'', PNone), (''is_english'', PNone), (''message_id'', PNone),
      (''req_time'', PNone), (''fulfill_message_id'', PNone), (''fulfill_time'', PNone),
      (''fulfilled_by'', PNone)]"

section \<open>Statistics\<close>

text \<open>
  \<^verbatim>\<open>SELECT key, COUNT(col) ... GROUP BY key\<close> over a column that is never null: one
  result row per key value that occurs, with the number of rows carrying it. SQL fixes
  no order of the groups; the model lists them by first occurrence.
\<close>

definition group_by_count :: "('a \<Rightarrow> 'k) \<Rightarrow> 'a list \<Rightarrow> ('k \<times> nat) list" where
  "group_by_count key xs =
     map (\<lambda>k. (k, length (filter (\<lambda>x. key x = k) xs))) (remdups (map key xs))"

text \<open>
  The loop of \<^verbatim>\<open>get_user_stats\<close> and \<^verbatim>\<open>get_global_stats\<close> over the cursor, with the four
  counters \<^verbatim>\<open>english_fulfilled\<close>, \<^verbatim>\<open>non_english_fulfilled\<close>,
  \<^verbatim>\<open>english_not_fulfilled\<close>, \<^verbatim>\<open>non_english_not_fulfilled\<close>. On an exhausted cursor
  \<^verbatim>\<open>next\<close> returns the default \<^verbatim>\<open>(None, None, None)\<close>, whose members are \<^verbatim>\<open>None\<close>:
  the loop breaks. It also breaks at the first row with a \<^verbatim>\<open>None\<close> member.
\<close>

fun stats_loop ::
  "row list \<Rightarrow> pyval \<times> pyval \<times> pyval \<times> pyval \<Rightarrow> error + pyval \<times> pyval \<times> pyval \<times> pyval" where
  "stats_loop [] acc = Inr acc"
| "stats_loop (r # cur) (ef, nef, enf, nenf) =
     (case unpack3 r of
        Inl ex \<Rightarrow> Inl ex
      | Inr (is_fulfilled, is_eng, req_count) \<Rightarrow>
          if is_fulfilled = PNone \<or> is_eng = PNone \<or> req_count = PNone
          then Inr (ef, nef, enf, nenf)
          else if truthy is_fulfilled
          then (if truthy is_eng then stats_loop cur (req_count, nef, enf, nenf)
                else stats_loop cur (ef, req_count, enf, nenf))
          else (if truthy is_eng then stats_loop cur (ef, nef, req_count, nenf)
                else stats_loop cur (ef, nef, enf, req_count)))"

text \<open>
  The query of both methods: \<^verbatim>\<open>is_english\<close> and
  \<^verbatim>\<open>(fulfill_time IS NOT NULL) AS is_fulfilled\<close> of the selected requests, grouped by
  both, each group returned as \<^verbatim>\<open>(is_fulfilled, is_english, cnt)\<close>.
\<close>

definition stats_query :: "requests_row list \<Rightarrow> row list" where
  "stats_query rs =
     map (\<lambda>((eng, ful), n). [PBool ful, PBool eng, PInt (int n)])
       (group_by_count (\<lambda>r. (is_english r, fulfill_time r \<noteq> None)) rs)"

definition get_user_stats ::
  "connection \<Rightarrow> int \<Rightarrow> (error + pyval \<times> pyval \<times> pyval \<times> pyval) \<times> connection" where
  "get_user_stats c uid =
     query_no_commit
       (\<lambda>d. stats_loop (stats_query (filter (\<lambda>r. user_id r = uid) (requests d)))
               (PInt 0, PInt 0, PInt 0, PInt 0)) c"

definition get_global_stats ::
  "connection \<Rightarrow> (error + pyval \<times> pyval \<times> pyval \<times> pyval) \<times> connection" where
  "get_global_stats c =
     query_no_commit
       (\<lambda>d. stats_loop (stats_query (requests d)) (PInt 0, PInt 0, PInt 0, PInt 0)) c"

text \<open>Number of requests of a list with the given language flag and fulfilment state.\<close>

definition bucket :: "requests_row list \<Rightarrow> bool \<Rightarrow> bool \<Rightarrow> int" where
  "bucket rs eng ful =
     int (length (filter (\<lambda>r. (is_english r, fulfill_time r \<noteq> None) = (eng, ful)) rs))"

text \<open>The count a list of groups holds for a key, or the given default.\<close>

definition pick :: "((bool \<times> bool) \<times> nat) list \<Rightarrow> bool \<times> bool \<Rightarrow> int \<Rightarrow> int" where
  "pick gs k a = (case map_of gs k of None \<Rightarrow> a | Some n \<Rightarrow> int n)"

section \<open>Leaderboard\<close>

text \<open>
  \<^verbatim>\<open>SELECT COUNT(message_id) AS count, fulfilled_by FROM requests
  WHERE fulfilled_by IS NOT NULL GROUP BY fulfilled_by ORDER BY count DESC\<close>, returned by
  \<^verbatim>\<open>fetchall()\<close> as a list of \<^verbatim>\<open>(count, fulfilled_by)\<close> tuples. The order among equal
  counts is not fixed by SQL.
\<close>

definition get_leaderboard :: "connection \<Rightarrow> (error + row list) \<times> connection" where
  "get_leaderboard c =
     query_and_commit
       (\<lambda>d. Inr (map (\<lambda>(fby, n). [PInt (int n), of_bigint fby])
                   (rev (sort_key snd
                      (group_by_count fulfilled_by
                         (filter (\<lambda>r. fulfilled_by r \<noteq> None) (requests d))))))) c"

text \<open>
  A history after which the only request has a fulfilment time and an acknowledgement
  but no fulfiller.
\<close>

definition unattributed_calls :: "call list" where
  "unattributed_calls =
     [Add_user 42 (Some ''Ann'') None,
      Register_request 42 True 1001 (Datetime 2024 1 3 9 0 0 0),
      Register_request_fulfillment 42 1001 (Some 2002) (Some 7) (Datetime 2024 1 4 9 0 0 0),
      Update_fulfilled_by (Some 2002) None]"

definition leaderboard_example :: connection where
  "leaderboard_example =
     \<lparr>committed = empty_database,
      working =
        \<lparr>users = [\<lparr>users_user_id = 42, users_name = Some ''Ann'', users_user_name = None\<rparr>],
         requests =
           [\<lparr>user_id = 42, is_english = True, message_id = 1001,
             req_time = Some (Datetime 2024 1 3 9 0 0 0), fulfill_message_id = Some 2001,
             fulfill_time = Some (Datetime 2024 1 4 9 0 0 0), fulfilled_by = Some 7\<rparr>,
            \<lparr>user_id = 42, is_english = False, message_id = 1002,
             req_time = Some (Datetime 2024 1 5 9 0 0 0), fulfill_message_id = Some 2002,
             fulfill_time = Some (Datetime 2024 1 6 9 0 0 0), fulfilled_by = Some 8\<rparr>,
            \<lparr>user_id = 42, is_english = True, message_id = 1003,
             req_time = Some (Datetime 2024 1 7 9 0 0 0), fulfill_message_id = Some 2003,
             fulfill_time = Some (Datetime 2024 1 8 9 0 0 0), fulfilled_by = Some 8\<rparr>,
            \<lparr>user_id = 42, is_english = True, message_id = 1004,
             req_time = Some (Datetime 2024 1 9 9 0 0 0), fulfill_message_id = None,
             fulfill_time = None, fulfilled_by = None\<rparr>]\<rparr>\<rparr>"

section \<open>Weekly statistics\<close>

text \<open>
  \<^verbatim>\<open>week_end + timedelta(days=1)\<close>: the same time of day on the next calendar day;
  Python raises \<^verbatim>\<open>OverflowError\<close> past 9999-12-31. A week bound given as a
  \<^verbatim>\<open>date\<close> is compared by the store as the timestamp at midnight of that day, so it is
  a \<open>datetime\<close> with the time fields 0 here.
\<close>

definition plus_one_day :: "datetime \<Rightarrow> error + datetime" where
  "plus_one_day t =
     (if day t < days_in_month (year t) (month t)
      then Inr (Datetime (year t) (month t) (day t + 1) (hour t) (minute t) (second t)
                  (microsecond t))
      else if month t < 12
      then Inr (Datetime (year t) (month t + 1) 1 (hour t) (minute t) (second t)
                  (microsecond t))
      else if year t < 9999
      then Inr (Datetime (year t + 1) 1 1 (hour t) (minute t) (second t) (microsecond t))
      else Inl OverflowError)"

text \<open>
  \<^verbatim>\<open>SELECT count(message_id) FROM requests WHERE col >= %s AND col <= %s\<close>: a null
  \<^verbatim>\<open>col\<close> satisfies neither comparison.
\<close>

definition count_between ::
  "(requests_row \<Rightarrow> datetime option) \<Rightarrow> datetime \<Rightarrow> datetime \<Rightarrow> requests_row list \<Rightarrow> row list"
  where
  "count_between col lo hi rs =
     [[PInt (int (length (filter
        (\<lambda>r. case col r of None \<Rightarrow> False | Some t \<Rightarrow> dt_le lo t \<and> dt_le t hi) rs)))]]"

text \<open>
  \<^verbatim>\<open>cur.fetchone()[0]\<close>: \<^verbatim>\<open>fetchone\<close> gives the next row or \<^verbatim>\<open>None\<close>, and indexing
  \<^verbatim>\<open>None\<close> raises \<^verbatim>\<open>TypeError\<close>.
\<close>

definition fetchone_0 :: "row list \<Rightarrow> error + pyval" where
  "fetchone_0 cur =
     (case cur of
        [] \<Rightarrow> Inl TypeError
      | r # _ \<Rightarrow> (case r of [] \<Rightarrow> Inl IndexError | v # _ \<Rightarrow> Inr v))"

text \<open>The loop over the supplied weeks; \<^verbatim>\<open>results\<close> is the dictionary being filled.\<close>

fun weekly_loop ::
  "database \<Rightarrow> (datetime \<times> datetime \<times> 'l) list \<Rightarrow> ('l \<rightharpoonup> pyval \<times> pyval)
     \<Rightarrow> error + ('l \<rightharpoonup> pyval \<times> pyval)" where
  "weekly_loop d [] results = Inr results"
| "weekly_loop d ((week_start, week_end, week_number) # weeks) results =
     (case plus_one_day week_end of
        Inl ex \<Rightarrow> Inl ex
      | Inr week_end' \<Rightarrow>
          (case fetchone_0 (count_between req_time week_start week_end' (requests d)) of
             Inl ex \<Rightarrow> Inl ex
           | Inr requests_count \<Rightarrow>
               (case fetchone_0
                       (count_between fulfill_time week_start week_end' (requests d)) of
                  Inl ex \<Rightarrow> Inl ex
                | Inr fulfill_count \<Rightarrow>
                    weekly_loop d weeks
                      (results(week_number \<mapsto> (requests_count, fulfill_count))))))"

definition get_weekly_stats ::
  "connection \<Rightarrow> (datetime \<times> datetime \<times> 'l) list
     \<Rightarrow> (error + ('l \<rightharpoonup> pyval \<times> pyval)) \<times> connection" where
  "get_weekly_stats c weeks = query_and_commit (\<lambda>d. weekly_loop d weeks Map.empty) c"

text \<open>
  Scenario E of the specification: one request opened 2024-01-03 and fulfilled
  2024-01-10. The second state holds one request opened at 2024-01-08 00:00:00 exactly,
  the first instant after the week from 2024-01-01 to 2024-01-07.
\<close>

definition scenario_e :: connection where
  "scenario_e =
     \<lparr>committed = empty_database,
      working =
        \<lparr>users = [\<lparr>users_user_id = 42, users_name = Some ''Ann'', users_user_name = None\<rparr>],
         requests =
           [\<lparr>user_id = 42, is_english = True, message_id = 1001,
             req_time = Some (Datetime 2024 1 3 0 0 0 0), fulfill_message_id = Some 2002,
             fulfill_time = Some (Datetime 2024 1 10 0 0 0 0), fulfilled_by = Some 7\<rparr>]\<rparr>\<rparr>"

definition midnight_request :: connection where
  "midnight_request =
     \<lparr>committed = empty_database,
      working =
        \<lparr>users = [\<lparr>users_user_id = 42, users_name = Some ''Ann'', users_user_name = None\<rparr>],
         requests =
           [\<lparr>user_id = 42, is_english = True, message_id = 1001,
             req_time = Some (Datetime 2024 1 8 0 0 0 0), fulfill_message_id = None,
             fulfill_time = None, fulfilled_by = None\<rparr>]\<rparr>\<rparr>"

definition week_1 :: "datetime \<times> datetime \<times> string" where
  "week_1 = (Datetime 2024 1 1 0 0 0 0, Datetime 2024 1 7 0 0 0 0, ''W1'')"

definition week_2 :: "datetime \<times> datetime \<times> string" where
  "week_2 = (Datetime 2024 1 8 0 0 0 0, Datetime 2024 1 14 0 0 0 0, ''W2'')"

section \<open>Backup export\<close>

text \<open>Decimal digits of a number, and zero padding as \<^verbatim>\<open>strftime\<close> does it.\<close>

fun show_nat :: "nat \<Rightarrow> string" where
  "show_nat n =
     (if n < 10 then [''0123456789'' ! n]
      else show_nat (n div 10) @ [''0123456789'' ! (n mod 10)])"

definition pad_left :: "nat \<Rightarrow> string \<Rightarrow> string" where
  "pad_left w s = replicate (w - length s) (CHR ''0'') @ s"

text \<open>\<^verbatim>\<open>repr\<close> of an \<^verbatim>\<open>int\<close> and of a \<^verbatim>\<open>bool\<close>.\<close>

definition repr_int :: "int \<Rightarrow> string" where
  "repr_int i = (if i < 0 then ''-'' @ show_nat (nat (- i)) else show_nat (nat i))"

definition repr_bool :: "bool \<Rightarrow> string" where
  "repr_bool b = (if b then ''True'' else ''False'')"

text \<open>
  \<^verbatim>\<open>repr\<close> of a \<^verbatim>\<open>str\<close>: single quotes around the text, unless it holds a single
  quote and no double quote, in which case double quotes; the quote in use and the
  backslash are escaped with a backslash, tab, newline and carriage return are written
  \<^verbatim>\<open>\t\<close>, \<^verbatim>\<open>\n\<close>, \<^verbatim>\<open>\r\<close>, and every other code point that is not printable
  (controls, U+007F to U+00A0, U+00AD) as \<^verbatim>\<open>\xhh\<close>.
\<close>

definition hex2 :: "nat \<Rightarrow> string" where
  "hex2 n = [''0123456789abcdef'' ! (n div 16), ''0123456789abcdef'' ! (n mod 16)]"

definition repr_char :: "char \<Rightarrow> char \<Rightarrow> string" where
  "repr_char q ch =
     (let n = (of_char ch :: nat) in
      if ch = q \<or> ch = CHR 0x5C then [CHR 0x5C, ch]
      else if n = 9 then [CHR 0x5C, CHR ''t'']
      else if n = 10 then [CHR 0x5C, CHR ''n'']
      else if n = 13 then [CHR 0x5C, CHR ''r'']
      else if n < 32 \<or> n = 127 then [CHR 0x5C, CHR ''x''] @ hex2 n
      else if n < 127 then [ch]
      else if n \<le> 160 \<or> n = 173 then [CHR 0x5C, CHR ''x''] @ hex2 n
      else [ch])"

definition repr_str :: "string \<Rightarrow> string" where
  "repr_str s =
     (let q = (if CHR 0x27 \<in> set s \<and> CHR 0x22 \<notin> set s then CHR 0x22 else CHR 0x27)
      in [q] @ concat (map (repr_char q) s) @ [q])"

text \<open>
  The two \<^verbatim>\<open>strftime\<close> patterns of \<^verbatim>\<open>get_backup_data\<close>:
  \<^verbatim>\<open>'%Y-%m-%d %H:%M:%S'\<close> (the quotes are part of the format) for a stored timestamp,
  and \<^verbatim>\<open>%d-%m-%Y-%H:%M:%S\<close> for the archive name. Neither prints the microseconds.
\<close>

definition strftime_sql :: "datetime \<Rightarrow> string" where
  "strftime_sql t =
     [CHR 0x27] @ pad_left 4 (show_nat (year t)) @ ''-'' @ pad_left 2 (show_nat (month t)) @
     ''-'' @ pad_left 2 (show_nat (day t)) @ '' '' @ pad_left 2 (show_nat (hour t)) @
     '':'' @ pad_left 2 (show_nat (minute t)) @ '':'' @ pad_left 2 (show_nat (second t)) @
     [CHR 0x27]"

definition strftime_name :: "datetime \<Rightarrow> string" where
  "strftime_name t =
     pad_left 2 (show_nat (day t)) @ ''-'' @ pad_left 2 (show_nat (month t)) @ ''-'' @
     pad_left 4 (show_nat (year t)) @ ''-'' @ pad_left 2 (show_nat (hour t)) @ '':'' @
     pad_left 2 (show_nat (minute t)) @ '':'' @ pad_left 2 (show_nat (second t))"

fun format_data :: "pyval \<Rightarrow> string" where
  "format_data PNone = ''NULL''"
| "format_data (PDatetime t) = strftime_sql t"
| "format_data (PBool b) = repr_bool b"
| "format_data (PInt i) = repr_int i"
| "format_data (PStr s) = repr_str s"

text \<open>\<^verbatim>\<open>sep.join(items)\<close>.\<close>

fun join :: "string \<Rightarrow> string list \<Rightarrow> string" where
  "join sep [] = []"
| "join sep [x] = x"
| "join sep (x # y # ys) = x @ sep @ join sep (y # ys)"

text \<open>
  \<^verbatim>\<open>SELECT * FROM table\<close>: the column names of \<^verbatim>\<open>cur.description\<close> in the order of
  \<^verbatim>\<open>CREATE TABLE\<close>, and every row of the table.
\<close>

definition select_all :: "string \<Rightarrow> database \<Rightarrow> string list \<times> row list" where
  "select_all table_name d =
     (if table_name = ''users''
      then ([''user_id'', ''name'', ''user_name''],
            map (\<lambda>u. [PInt (users_user_id u), of_text (users_name u),
                       of_text (users_user_name u)]) (users d))
      else ([''user_id'', ''is_english'', ''message_id'', ''req_time'',
             ''fulfill_message_id'', ''fulfill_time'', ''fulfilled_by''],
            map (\<lambda>r. [PInt (user_id r), PBool (is_english r), PInt (message_id r),
                       of_timestamp (req_time r), of_bigint (fulfill_message_id r),
                       of_timestamp (fulfill_time r), of_bigint (fulfilled_by r)])
                (requests d)))"

text \<open>The text written to \<^verbatim>\<open>table_name.sql\<close>: one \<^verbatim>\<open>INSERT\<close> line per row.\<close>

definition table_dump :: "string \<Rightarrow> database \<Rightarrow> string" where
  "table_dump table_name d =
     (let (columns, table_data) = select_all table_name d;
          insert_prefix =
            ''INSERT INTO '' @ table_name @ '' ('' @ join '', '' columns @ '') VALUES''
      in concat (map (\<lambda>row. insert_prefix @ '' ('' @ join '', '' (map format_data row) @
                            '');'' @ [CHR 0x0A]) table_data))"

text \<open>
  \<^verbatim>\<open>get_backup_data\<close> returns the archive name; the archive it leaves on disk holds
  \<^verbatim>\<open>users.sql\<close> and \<^verbatim>\<open>requests.sql\<close>. The result here is the name together with the
  members of the archive (file name and text). \<open>cur_time\<close> is the reading of
  \<^verbatim>\<open>datetime.now(tz=pytz.timezone('Asia/Kolkata'))\<close>. Failures of the file system
  are left out.
\<close>

definition get_backup_data ::
  "connection \<Rightarrow> datetime \<Rightarrow> (error + string \<times> (string \<times> string) list) \<times> connection" where
  "get_backup_data c cur_time =
     query_and_commit
       (\<lambda>d. let table_names = [''users'', ''requests''];
                 zip_file_name = ''database_backup_'' @ strftime_name cur_time @ ''.zip''
             in Inr (zip_file_name,
                     map (\<lambda>table_name. (table_name @ ''.sql'', table_dump table_name d))
                       table_names)) c"

text \<open>
  Two datasets that differ in the microseconds of one request time, as
  \<^verbatim>\<open>datetime.now()\<close> produces them, and a user whose name holds an apostrophe.
\<close>

definition backup_example :: "nat \<Rightarrow> connection" where
  "backup_example us =
     \<lparr>committed = empty_database,
      working =
        \<lparr>users = [\<lparr>users_user_id = 42, users_name = Some (''O'' @ [CHR 0x27] @ ''Brien''),
                    users_user_name = None\<rparr>],
         requests =
           [\<lparr>user_id = 42, is_english = True, message_id = 1001,
             req_time = Some (Datetime 2024 1 3 10 20 30 us), fulfill_message_id = None,
             fulfill_time = None, fulfilled_by = None\<rparr>]\<rparr>\<rparr>"

section \<open>Frame of re-attribution\<close>


lemma update_fulfilled_by_refused:
  assumes "\<not> bigint_ok fby"
  shows "update_fulfilled_by c fmid fby =
     (Inl NumericValueOutOfRange, \<lparr>committed = committed c, working = committed c\<rparr>)"
  using assms
  by (simp add: update_fulfilled_by_def execute_and_commit_def commit_def rollback_def)




section \<open>Opening a request\<close>

lemma register_request_succeeds:
  assumes "in_bigint uid" and "in_bigint mid"
    and "mid \<notin> message_id ` set (requests (working c))"
    and "uid \<in> users_user_id ` set (users (working c))"
  shows "register_request c uid eng mid now =
           (Inr (), \<lparr>committed = (working c)\<lparr>requests := requests (working c) @
                       [\<lparr>user_id = uid, is_english = eng, message_id = mid, req_time = Some now,
                         fulfill_message_id = None, fulfill_time = None, fulfilled_by = None\<rparr>]\<rparr>,
                     working = (working c)\<lparr>requests := requests (working c) @
                       [\<lparr>user_id = uid, is_english = eng, message_id = mid, req_time = Some now,
                         fulfill_message_id = None, fulfill_time = None, fulfilled_by = None\<rparr>]\<rparr>\<rparr>)"
  using assms
  by (simp add: register_request_def execute_and_commit_def insert_request_def commit_def)

lemma register_request_fails:
  assumes "in_bigint uid" and "in_bigint mid"
    and "mid \<in> message_id ` set (requests (working c)) \<or>
         uid \<notin> users_user_id ` set (users (working c))"
  shows "register_request c uid eng mid now =
           (Inl (if mid \<in> message_id ` set (requests (working c))
                 then UniqueViolation else ForeignKeyViolation),
            \<lparr>committed = committed c, working = committed c\<rparr>)"
  using assms
  by (auto simp add: register_request_def execute_and_commit_def insert_request_def commit_def
      rollback_def)

lemma register_request_refused:
  assumes "\<not> in_bigint uid \<or> \<not> in_bigint mid"
  shows "register_request c uid eng mid now =
           (Inl NumericValueOutOfRange, \<lparr>committed = committed c, working = committed c\<rparr>)"
  using assms
  by (auto simp add: register_request_def execute_and_commit_def insert_request_def commit_def
      rollback_def)

text \<open>
  Claim C7. \<^verbatim>\<open>register_request\<close> inserts a pending request and raises on a missing
  user or a used message id, as the lemmas above state; a failure rolls the open
  transaction back, so the data goes back to what was last committed. That is the state
  before the call only when nothing uncommitted is pending. \<^verbatim>\<open>update_user\<close> never
  commits (unlike \<^verbatim>\<open>add_user\<close>), so after \<^verbatim>\<open>add_user(1, 'old name', 'old_handle')\<close> and
  \<^verbatim>\<open>update_user(1, 'new name', 'new_handle')\<close> a call \<^verbatim>\<open>register_request(2, True, 10)\<close>
  for the unknown user 2 raises the foreign-key violation, inserts no row, and leaves the
  users table with the old name again: the data is not in its pre-call state.
\<close>

theorem register_request_failure_discards_pending_update:
  "(let c0 = snd (add_user empty_connection 1 (Some ''old name'') (Some ''old_handle''));
        c1 = snd (update_user c0 1 (Some ''new name'') (Some ''new_handle''));
        (res, c2) = register_request c1 2 True 10 (Datetime 2024 1 3 12 0 0 0)
    in res = Inl ForeignKeyViolation \<and>
       requests (working c2) = requests (working c1) \<and>
       users (working c1) =
         [\<lparr>users_user_id = 1, users_name = Some ''new name'',
           users_user_name = Some ''new_handle''\<rparr>] \<and>
       users (working c2) =
         [\<lparr>users_user_id = 1, users_name = Some ''old name'',
           users_user_name = Some ''old_handle''\<rparr>])"
  by (simp add: add_user_def update_user_def register_request_def execute_and_commit_def
      execute_no_commit_def insert_user_def insert_request_def commit_def rollback_def
      empty_connection_def empty_database_def in_bigint_def)

section \<open>The fulfilment fields move together\<close>

lemma step_group_inv:
  assumes "group_inv (committed c)" "group_inv (working c)" "fulfiller_args_given x"
  shows "group_inv (committed (step c x)) \<and> group_inv (working (step c x))"
proof (cases x)
  case (Add_user uid nm uname)
  with assms show ?thesis
    by (simp add: add_user_def execute_and_commit_def insert_user_def commit_def rollback_def
        group_inv_def)
next
  case (Update_user uid nm uname)
  with assms show ?thesis
    by (simp add: update_user_def execute_no_commit_def group_inv_def)
next
  case (Register_request uid eng mid now)
  with assms show ?thesis
    by (simp add: register_request_def execute_and_commit_def insert_request_def commit_def
        rollback_def group_inv_def group_ok_def)
next
  case (Register_request_fulfillment uid mid fulfill_id fby now)
  show ?thesis
  proof (cases "bigint_ok fulfill_id \<and> bigint_ok fby")
    case True
    with Register_request_fulfillment assms show ?thesis
      by (auto simp add: register_request_fulfillment_def execute_and_commit_def commit_def
          group_inv_def group_ok_def list_all_iff)
  next
    case False
    with Register_request_fulfillment assms(1) show ?thesis
      by (simp add: register_request_fulfillment_def execute_and_commit_def commit_def
          rollback_def)
  qed
next
  case (Mark_request_not_done uid mid)
  with assms show ?thesis
    by (auto simp add: mark_request_not_done_def execute_and_commit_def commit_def
        group_inv_def group_ok_def list_all_iff)
next
  case (Update_fulfilled_by fmid fby)
  show ?thesis
  proof (cases "bigint_ok fby")
    case True
    with Update_fulfilled_by assms show ?thesis
      by (auto simp add: update_fulfilled_by_def execute_and_commit_def commit_def
          group_inv_def group_ok_def list_all_iff sql_eq_def split: option.splits)
  next
    case False
    with Update_fulfilled_by assms(1) show ?thesis
      by (simp add: update_fulfilled_by_def execute_and_commit_def commit_def rollback_def)
  qed
next
  case (Delete_request mid)
  with assms show ?thesis
    by (auto simp add: delete_request_def execute_and_commit_def commit_def
        group_inv_def list_all_iff)
qed

text \<open>
  Claim C1, as stated: with only \<^verbatim>\<open>register_request_fulfillment\<close> barred from
  \<^verbatim>\<open>None\<close> arguments, the fulfilment fields of every stored request are all null or all
  set. This fails: \<^verbatim>\<open>update_fulfilled_by(2002, None)\<close> after a fulfilment acknowledged
  by message 2002 clears \<^verbatim>\<open>fulfilled_by\<close> alone.
\<close>

theorem fulfillment_group_counterexample:
  "list_all fulfillment_args_given torn_group_calls \<and>
   requests (working (run empty_connection torn_group_calls)) =
     [\<lparr>user_id = 42, is_english = True, message_id = 1001,
       req_time = Some (Datetime 2024 1 3 9 0 0 0), fulfill_message_id = Some 2002,
       fulfill_time = Some (Datetime 2024 1 4 9 0 0 0), fulfilled_by = None\<rparr>] \<and>
   \<not> group_inv (working (run empty_connection torn_group_calls))"
  by (simp add: torn_group_calls_def add_user_def register_request_def register_request_fulfillment_def
      update_fulfilled_by_def execute_and_commit_def insert_user_def insert_request_def
      commit_def empty_connection_def empty_database_def sql_eq_def in_bigint_def
      bigint_ok_def
      group_inv_def group_ok_def)

text \<open>
  Claim C1, amended: from any connection whose committed and visible data satisfy the
  invariant (the empty schema among them), every history of \<^verbatim>\<open>add_user\<close>,
  \<^verbatim>\<open>update_user\<close>, \<^verbatim>\<open>register_request\<close>, \<^verbatim>\<open>register_request_fulfillment\<close>,
  \<^verbatim>\<open>mark_request_not_done\<close>, \<^verbatim>\<open>update_fulfilled_by\<close> and \<^verbatim>\<open>delete_request\<close> calls,
  failed calls included, in which \<^verbatim>\<open>register_request_fulfillment\<close> gets a
  \<^verbatim>\<open>fulfill_id\<close> and a \<^verbatim>\<open>fulfilled_by\<close> other than \<^verbatim>\<open>None\<close> and
  \<^verbatim>\<open>update_fulfilled_by\<close> gets a \<^verbatim>\<open>fulfilled_by\<close> other than \<^verbatim>\<open>None\<close>, leaves
  every request row with its three fulfilment fields all null or all set.
\<close>

theorem fulfillment_group_invariant:
  assumes "group_inv (committed c)" and "group_inv (working c)"
    and "list_all fulfiller_args_given calls"
  shows "group_inv (working (run c calls))"
  using assms
proof (induction calls arbitrary: c)
  case Nil
  then show ?case by simp
next
  case (Cons x xs)
  from Cons.prems have "group_inv (committed (step c x)) \<and> group_inv (working (step c x))"
    by (intro step_group_inv) simp_all
  with Cons.IH [of "step c x"] Cons.prems show ?case by simp
qed

theorem fulfillment_group_invariant_witness:
  "group_inv (committed empty_connection) \<and> group_inv (working empty_connection) \<and>
   list_all fulfiller_args_given reattributed_calls \<and>
   requests (working (run empty_connection reattributed_calls)) =
     [\<lparr>user_id = 42, is_english = True, message_id = 1001,
       req_time = Some (Datetime 2024 1 3 9 0 0 0), fulfill_message_id = Some 2002,
       fulfill_time = Some (Datetime 2024 1 4 9 0 0 0), fulfilled_by = Some 8\<rparr>] \<and>
   group_inv (working (run empty_connection reattributed_calls))"
proof -
  have a: "group_inv (committed empty_connection)" "group_inv (working empty_connection)"
    by (simp_all add: empty_connection_def empty_database_def group_inv_def)
  have b: "list_all fulfiller_args_given reattributed_calls"
    by (simp add: reattributed_calls_def)
  have c: "requests (working (run empty_connection reattributed_calls)) =
     [\<lparr>user_id = 42, is_english = True, message_id = 1001,
       req_time = Some (Datetime 2024 1 3 9 0 0 0), fulfill_message_id = Some 2002,
       fulfill_time = Some (Datetime 2024 1 4 9 0 0 0), fulfilled_by = Some 8\<rparr>]"
    by (simp add: reattributed_calls_def add_user_def register_request_def register_request_fulfillment_def
        update_fulfilled_by_def execute_and_commit_def insert_user_def insert_request_def
        commit_def empty_connection_def empty_database_def sql_eq_def in_bigint_def
      bigint_ok_def)
  from a b c fulfillment_group_invariant [OF a b] show ?thesis by simp
qed

section \<open>Fulfilment never precedes the request\<close>

lemma dt_le_refl: "dt_le t t"
  by (simp add: dt_le_def)

lemma dt_le_trans: "dt_le a b \<Longrightarrow> dt_le b c \<Longrightarrow> dt_le a c"
  unfolding dt_le_def by (rule order_trans)

lemma row_settled_time_ok: "row_settled ts r \<Longrightarrow> time_ok r"
  by (simp add: row_settled_def time_ok_def split: option.splits)

lemma row_settled_tail: "row_settled (t # ts) r \<Longrightarrow> row_settled ts r"
  by (simp add: row_settled_def split: option.splits)

lemma row_settled_new:
  "list_all (dt_le now) ts \<Longrightarrow>
   row_settled ts \<lparr>user_id = uid, is_english = eng, message_id = mid, req_time = Some now,
     fulfill_message_id = None, fulfill_time = None, fulfilled_by = None\<rparr>"
  by (simp add: row_settled_def)

lemma row_settled_fulfil:
  "row_settled (now # ts) r \<Longrightarrow> list_all (dt_le now) ts \<Longrightarrow>
   row_settled ts (r\<lparr>fulfill_message_id := fulfill_id, fulfill_time := Some now,
     fulfilled_by := fby\<rparr>)"
  by (simp add: row_settled_def split: option.splits)

lemma row_settled_revert:
  "row_settled ts r \<Longrightarrow>
   row_settled ts (r\<lparr>fulfill_message_id := None, fulfill_time := None, fulfilled_by := None\<rparr>)"
  by (simp add: row_settled_def split: option.splits)

lemma row_settled_reattribute:
  "row_settled ts r \<Longrightarrow> row_settled ts (r\<lparr>fulfilled_by := fby\<rparr>)"
  by (simp add: row_settled_def split: option.splits)

lemma settled_empty: "settled ts empty_database"
  by (simp add: settled_def empty_database_def)

lemma settled_time_inv: "settled ts d \<Longrightarrow> time_inv d"
  by (auto simp: settled_def time_inv_def list_all_iff intro: row_settled_time_ok)

lemma settled_users: "settled ts (d\<lparr>users := us\<rparr>) = settled ts d"
  by (simp add: settled_def)

lemma settled_tail: "settled (t # ts) d \<Longrightarrow> settled ts d"
  by (auto simp: settled_def list_all_iff intro: row_settled_tail)

lemma settled_insert:
  assumes "settled ts d"
    and "list_all (dt_le now) ts"
  shows "settled ts (d\<lparr>requests := requests d @
           [\<lparr>user_id = uid, is_english = eng, message_id = mid, req_time = Some now,
             fulfill_message_id = None, fulfill_time = None, fulfilled_by = None\<rparr>]\<rparr>)"
  using assms by (simp add: settled_def row_settled_new)

lemma settled_fulfil:
  assumes "settled (now # ts) d"
    and "list_all (dt_le now) ts"
  shows "settled ts (d\<lparr>requests :=
          map (\<lambda>r. if user_id r = uid \<and> message_id r = mid
                    then r\<lparr>fulfill_message_id := fulfill_id, fulfill_time := Some now,
                           fulfilled_by := fby\<rparr>
                    else r)
              (requests d)\<rparr>)"
  using assms
  by (auto simp: settled_def list_all_iff intro: row_settled_fulfil row_settled_tail)

lemma settled_revert:
  assumes "settled ts d"
  shows "settled ts (d\<lparr>requests :=
          map (\<lambda>r. if user_id r = uid \<and> message_id r = mid
                    then r\<lparr>fulfill_message_id := None, fulfill_time := None,
                           fulfilled_by := None\<rparr>
                    else r)
              (requests d)\<rparr>)"
  using assms by (auto simp: settled_def list_all_iff intro: row_settled_revert)

lemma settled_reattribute:
  assumes "settled ts d"
  shows "settled ts (d\<lparr>requests :=
          map (\<lambda>r. if sql_eq (fulfill_message_id r) fmid then r\<lparr>fulfilled_by := fby\<rparr> else r)
              (requests d)\<rparr>)"
  using assms by (auto simp: settled_def list_all_iff intro: row_settled_reattribute)

lemma settled_delete:
  assumes "settled ts d"
  shows "settled ts (d\<lparr>requests := filter (\<lambda>r. message_id r \<noteq> mid) (requests d)\<rparr>)"
  using assms by (auto simp: settled_def list_all_iff)

lemma step_settled:
  assumes "settled (clock_readings (x # xs)) (committed c)"
    and "settled (clock_readings (x # xs)) (working c)"
    and "clock_never_steps_back (x # xs)"
  shows "settled (clock_readings xs) (committed (step c x)) \<and>
         settled (clock_readings xs) (working (step c x))"
proof (cases x)
  case (Add_user uid nm uname)
  with assms show ?thesis
    by (simp add: add_user_def execute_and_commit_def insert_user_def commit_def rollback_def
        settled_users)
next
  case (Update_user uid nm uname)
  with assms show ?thesis
    by (simp add: update_user_def execute_no_commit_def settled_users)
next
  case (Register_request uid eng mid now)
  with assms have later: "list_all (dt_le now) (clock_readings xs)"
    by (simp add: clock_never_steps_back_def list_all_iff)
  from Register_request assms have
    "settled (clock_readings xs) (committed c)" "settled (clock_readings xs) (working c)"
    by (auto dest: settled_tail)
  with Register_request later show ?thesis
    by (simp add: register_request_def execute_and_commit_def insert_request_def commit_def
        rollback_def settled_insert)
next
  case (Register_request_fulfillment uid mid fulfill_id fby now)
  with assms have later: "list_all (dt_le now) (clock_readings xs)"
    by (simp add: clock_never_steps_back_def list_all_iff)
  from Register_request_fulfillment assms have now_w:
    "settled (now # clock_readings xs) (working c)" by simp
  from Register_request_fulfillment assms have now_c:
    "settled (clock_readings xs) (committed c)" by (auto dest: settled_tail)
  show ?thesis
  proof (cases "bigint_ok fulfill_id \<and> bigint_ok fby")
    case True
    with Register_request_fulfillment later now_w show ?thesis
      by (simp add: register_request_fulfillment_def execute_and_commit_def commit_def
          settled_fulfil)
  next
    case False
    with Register_request_fulfillment now_c show ?thesis
      by (simp add: register_request_fulfillment_def execute_and_commit_def commit_def
          rollback_def)
  qed
next
  case (Mark_request_not_done uid mid)
  with assms show ?thesis
    by (simp add: mark_request_not_done_def execute_and_commit_def commit_def settled_revert)
next
  case (Update_fulfilled_by fmid fby)
  with assms show ?thesis
    by (simp add: update_fulfilled_by_def execute_and_commit_def commit_def rollback_def
        settled_reattribute)
next
  case (Delete_request mid)
  with assms show ?thesis
    by (simp add: delete_request_def execute_and_commit_def commit_def settled_delete)
qed

lemma clock_tail: "clock_never_steps_back (x # xs) \<Longrightarrow> clock_never_steps_back xs"
  by (cases x) (simp_all add: clock_never_steps_back_def)

lemma run_settled:
  assumes "settled (clock_readings calls) (committed c)"
    and "settled (clock_readings calls) (working c)"
    and "clock_never_steps_back calls"
  shows "settled [] (working (run c calls))"
  using assms
proof (induction calls arbitrary: c)
  case Nil
  then show ?case by simp
next
  case (Cons x xs)
  from step_settled [OF Cons.prems]
  have "settled (clock_readings xs) (committed (step c x))"
    and "settled (clock_readings xs) (working (step c x))" by simp_all
  moreover from Cons.prems(3) have "clock_never_steps_back xs" by (rule clock_tail)
  ultimately show ?case using Cons.IH [of "step c x"] by simp
qed

text \<open>
  Claim C8, amended: in every state reached from the empty schema by a history of
  registry and ledger calls (failed calls included) whose successive readings of
  \<^verbatim>\<open>datetime.now()\<close> never step back, every request row with a fulfilment time has
  a request time, and the fulfilment time is not before it.
\<close>

theorem fulfill_time_not_before_req_time:
  assumes "clock_never_steps_back calls"
  shows "time_inv (working (run empty_connection calls))"
proof -
  have "settled (clock_readings calls) (committed empty_connection)"
    and "settled (clock_readings calls) (working empty_connection)"
    by (simp_all add: empty_connection_def settled_empty)
  from run_settled [OF this assms] show ?thesis by (rule settled_time_inv)
qed

text \<open>
  Claim C8, as stated for every history: it fails when the local wall clock steps back
  between the two calls (here across the end of daylight saving time), since both
  methods store the naive \<^verbatim>\<open>datetime.now()\<close> they read.
\<close>

theorem fulfill_time_counterexample:
  "requests (working (run empty_connection clock_back_calls)) =
     [\<lparr>user_id = 42, is_english = True, message_id = 1001,
       req_time = Some (Datetime 2024 10 27 2 30 0 0), fulfill_message_id = Some 2002,
       fulfill_time = Some (Datetime 2024 10 27 2 10 0 0), fulfilled_by = Some 7\<rparr>] \<and>
   \<not> time_inv (working (run empty_connection clock_back_calls))"
  by (simp add: clock_back_calls_def add_user_def register_request_def register_request_fulfillment_def
      execute_and_commit_def insert_user_def insert_request_def commit_def
      empty_connection_def empty_database_def in_bigint_def bigint_ok_def
      time_inv_def time_ok_def dt_le_def dt_key_def)

theorem fulfill_time_not_before_req_time_witness:
  "clock_never_steps_back clock_forward_calls \<and>
   requests (working (run empty_connection clock_forward_calls)) =
     [\<lparr>user_id = 42, is_english = True, message_id = 1001,
       req_time = Some (Datetime 2024 1 3 9 0 0 0), fulfill_message_id = Some 2002,
       fulfill_time = Some (Datetime 2024 1 10 9 0 0 0), fulfilled_by = Some 7\<rparr>] \<and>
   time_inv (working (run empty_connection clock_forward_calls))"
proof -
  have a: "clock_never_steps_back clock_forward_calls"
    by (simp add: clock_forward_calls_def clock_never_steps_back_def dt_le_def dt_key_def)
  have b: "requests (working (run empty_connection clock_forward_calls)) =
     [\<lparr>user_id = 42, is_english = True, message_id = 1001,
       req_time = Some (Datetime 2024 1 3 9 0 0 0), fulfill_message_id = Some 2002,
       fulfill_time = Some (Datetime 2024 1 10 9 0 0 0), fulfilled_by = Some 7\<rparr>]"
    by (simp add: clock_forward_calls_def add_user_def register_request_def register_request_fulfillment_def
        execute_and_commit_def insert_user_def insert_request_def commit_def
        empty_connection_def empty_database_def in_bigint_def bigint_ok_def)
  from a b fulfill_time_not_before_req_time [OF a] show ?thesis by simp
qed

section \<open>Lookups that find nothing\<close>

lemma get_user_details_absent:
  assumes "uid \<notin> users_user_id ` set (users (working c))"
  shows "get_user_details c uid = (Inr None, c)"
proof -
  from assms have "filter (\<lambda>u. users_user_id u = uid) (users (working c)) = []"
    by (auto simp: filter_empty_conv)
  then show ?thesis
    by (simp add: get_user_details_def query_no_commit_def py_next_def)
qed

lemma get_user_details_present:
  assumes "uid \<in> users_user_id ` set (users (working c))"
  shows "\<exists>nm uname. get_user_details c uid =
           (Inr (Some [(''user_id'', PInt uid), (''name'', nm), (''user_name'', uname)]), c)"
proof -
  from assms obtain u us where
    f: "filter (\<lambda>u. users_user_id u = uid) (users (working c)) = u # us"
    by (cases "filter (\<lambda>u. users_user_id u = uid) (users (working c))")
      (auto simp: filter_empty_conv)
  then have "u \<in> set (filter (\<lambda>u. users_user_id u = uid) (users (working c)))" by simp
  then have "users_user_id u = uid" by simp
  with f show ?thesis
    by (simp add: get_user_details_def query_no_commit_def py_next_def)
qed

lemma get_user_last_request_none:
  assumes "uid \<notin> user_id ` set (requests (working c))"
  shows "get_user_last_request c uid = (Inr no_last_request, c)"
proof -
  from assms have "filter (\<lambda>r. user_id r = uid) (requests (working c)) = []"
    by (auto simp: filter_empty_conv)
  then show ?thesis
    by (simp add: get_user_last_request_def query_no_commit_def py_next_def
        no_last_request_def)
qed

lemma get_latest_fulfilled_none:
  assumes "list_all (\<lambda>r. fulfill_time r = None) (requests (working c))"
  shows "get_latest_fulfilled c = (Inr no_latest_fulfilled, c)"
proof -
  from assms have "filter (\<lambda>r. fulfill_time r \<noteq> None) (requests (working c)) = []"
    by (auto simp: filter_empty_conv list_all_iff)
  then show ?thesis
    by (simp add: get_latest_fulfilled_def query_no_commit_def py_next_def
        no_latest_fulfilled_def)
qed

lemma last_row_found:
  assumes "filter P xs \<noteq> []"
  shows "\<exists>r. take 1 (rev (sort_key f (filter P xs))) = [r] \<and> r \<in> set xs \<and> P r"
proof -
  let ?s = "rev (sort_key f (filter P xs))"
  from assms have "?s \<noteq> []" by (metis length_sort length_0_conv rev_is_Nil_conv)
  then obtain r rs where s: "?s = r # rs" by (cases ?s) auto
  then have "r \<in> set ?s" by simp
  then have "r \<in> set xs \<and> P r" by simp
  with s show ?thesis by simp
qed

lemma get_user_last_request_found:
  assumes "uid \<in> user_id ` set (requests (working c))"
  shows "\<exists>rest. get_user_last_request c uid = (Inr ((''user_id'', PInt uid) # rest), c)"
proof -
  from assms have "filter (\<lambda>r. user_id r = uid) (requests (working c)) \<noteq> []"
    by (auto simp: filter_empty_conv)
  from last_row_found [OF this, of message_id] obtain r where
    "take 1 (rev (sort_key message_id (filter (\<lambda>r. user_id r = uid) (requests (working c)))))
       = [r]" and "user_id r = uid"
    by blast
  then show ?thesis
    by (simp add: get_user_last_request_def query_no_commit_def py_next_def)
qed

text \<open>
  Claim C9. A lookup that finds no row returns a marker of absence and does not raise:
  for a user id that is not in \<^verbatim>\<open>users\<close>, \<^verbatim>\<open>get_user_details\<close> returns \<^verbatim>\<open>None\<close>;
  for a user without requests, \<^verbatim>\<open>get_user_last_request\<close> returns the dictionary whose
  values are all \<^verbatim>\<open>None\<close>; when no request has a fulfilment time,
  \<^verbatim>\<open>get_latest_fulfilled\<close> returns the dictionary whose values are all \<^verbatim>\<open>None\<close>. In
  each case the result is a normal return (\<open>Inr\<close>) and the connection is untouched. The
  lemmas \<open>get_user_details_present\<close> and \<open>get_user_last_request_found\<close> show that a
  found row never produces these values, since its \<^verbatim>\<open>user_id\<close> is an integer.
\<close>

theorem lookups_report_absence:
  "(uid \<notin> users_user_id ` set (users (working c)) \<longrightarrow>
      get_user_details c uid = (Inr None, c)) \<and>
   (uid \<notin> user_id ` set (requests (working c)) \<longrightarrow>
      get_user_last_request c uid = (Inr no_last_request, c)) \<and>
   (list_all (\<lambda>r. fulfill_time r = None) (requests (working c)) \<longrightarrow>
      get_latest_fulfilled c = (Inr no_latest_fulfilled, c))"
  by (simp add: get_user_details_absent get_user_last_request_none get_latest_fulfilled_none)

theorem lookups_report_absence_witness:
  "get_user_details frame_example 7 = (Inr None, frame_example) \<and>
   get_user_last_request frame_example 7 = (Inr no_last_request, frame_example) \<and>
   get_latest_fulfilled empty_connection = (Inr no_latest_fulfilled, empty_connection)"
proof -
  have a: "7 \<notin> users_user_id ` set (users (working frame_example))"
    by (simp add: frame_example_def)
  have b: "7 \<notin> user_id ` set (requests (working frame_example))"
    by (simp add: frame_example_def)
  have c: "list_all (\<lambda>r. fulfill_time r = None) (requests (working empty_connection))"
    by (simp add: empty_connection_def empty_database_def)
  from a b c lookups_report_absence [of 7 frame_example]
    lookups_report_absence [of 7 empty_connection]
  show ?thesis by simp
qed

lemma get_user_present:
  assumes "uid \<in> users_user_id ` set (users (working c))"
  shows "get_user c uid = (Inr (Some [PInt uid]), c)"
proof -
  from assms obtain u us where
    f: "filter (\<lambda>u. users_user_id u = uid) (users (working c)) = u # us"
    by (cases "filter (\<lambda>u. users_user_id u = uid) (users (working c))")
      (auto simp: filter_empty_conv)
  then have "u \<in> set (filter (\<lambda>u. users_user_id u = uid) (users (working c)))" by simp
  then have "users_user_id u = uid" by simp
  with f show ?thesis
    by (simp add: get_user_def query_no_commit_def py_next_def)
qed

lemma get_user_absent:
  assumes "uid \<notin> users_user_id ` set (users (working c))"
  shows "get_user c uid = (Inr None, c)"
proof -
  from assms have "filter (\<lambda>u. users_user_id u = uid) (users (working c)) = []"
    by (auto simp: filter_empty_conv)
  then show ?thesis
    by (simp add: get_user_def query_no_commit_def py_next_def)
qed

lemma get_oldest_request_time_empty:
  assumes "requests (working c) = []"
  shows "get_oldest_request_time c = (Inr None, c)"
  using assms by (simp add: get_oldest_request_time_def query_no_commit_def py_next_def)

lemma ts_key_le:
  "ts_key x \<le> ts_key (Some t') \<Longrightarrow> \<exists>t. x = Some t \<and> dt_le t t'"
  by (cases x) (simp_all add: ts_key_def dt_le_def)

lemma get_oldest_request_time_nonempty:
  assumes "requests (working c) \<noteq> []"
  shows "\<exists>r \<in> set (requests (working c)).
           get_oldest_request_time c = (Inr (Some [of_timestamp (req_time r)]), c) \<and>
           (\<forall>r' \<in> set (requests (working c)). \<forall>t'. req_time r' = Some t' \<longrightarrow>
              (\<exists>t. req_time r = Some t \<and> dt_le t t'))"
proof -
  let ?k = "\<lambda>r. ts_key (req_time r)"
  let ?s = "sort_key ?k (requests (working c))"
  from assms have "?s \<noteq> []" by (metis length_sort length_0_conv)
  then obtain r rs where s: "?s = r # rs" by (cases ?s) auto
  have "sorted (map ?k ?s)" by (rule sorted_sort_key)
  with s have least: "\<forall>y \<in> set ?s. ?k r \<le> ?k y" by auto
  have mem: "set ?s = set (requests (working c))" by simp
  from s have "r \<in> set ?s" by simp
  with mem have r_in: "r \<in> set (requests (working c))" by simp
  have res: "get_oldest_request_time c = (Inr (Some [of_timestamp (req_time r)]), c)"
    using s by (simp add: get_oldest_request_time_def query_no_commit_def py_next_def)
  have "\<exists>t. req_time r = Some t \<and> dt_le t t'"
    if "r' \<in> set (requests (working c))" "req_time r' = Some t'" for r' t'
  proof -
    from that(1) mem least have "?k r \<le> ?k r'" by blast
    with that(2) show ?thesis by (auto dest: ts_key_le)
  qed
  with r_in res show ?thesis by blast
qed

text \<open>
  Claim C10. \<^verbatim>\<open>get_user(user_id)\<close> returns the one-element tuple \<^verbatim>\<open>(user_id,)\<close>, not
  the bare integer, when the id is in \<^verbatim>\<open>users\<close>, and \<^verbatim>\<open>None\<close> when it is not.
  \<^verbatim>\<open>get_oldest_request_time()\<close> returns \<^verbatim>\<open>None\<close> on an empty \<^verbatim>\<open>requests\<close> table and
  otherwise the one-element tuple holding the \<^verbatim>\<open>req_time\<close> of a stored request that
  is not after the \<^verbatim>\<open>req_time\<close> of any request (null request times sort last).
\<close>

theorem single_column_lookups_return_rows:
  "(uid \<in> users_user_id ` set (users (working c)) \<longrightarrow>
      get_user c uid = (Inr (Some [PInt uid]), c)) \<and>
   (uid \<notin> users_user_id ` set (users (working c)) \<longrightarrow>
      get_user c uid = (Inr None, c)) \<and>
   (requests (working c) = [] \<longrightarrow> get_oldest_request_time c = (Inr None, c)) \<and>
   (requests (working c) \<noteq> [] \<longrightarrow>
      (\<exists>r \<in> set (requests (working c)).
         get_oldest_request_time c = (Inr (Some [of_timestamp (req_time r)]), c) \<and>
         (\<forall>r' \<in> set (requests (working c)). \<forall>t'. req_time r' = Some t' \<longrightarrow>
            (\<exists>t. req_time r = Some t \<and> dt_le t t'))))"
  using get_user_present [of uid c] get_user_absent [of uid c]
    get_oldest_request_time_empty [of c] get_oldest_request_time_nonempty [of c]
  by blast

theorem single_column_lookups_return_rows_witness:
  "get_user frame_example 42 = (Inr (Some [PInt 42]), frame_example) \<and>
   get_user frame_example 7 = (Inr None, frame_example) \<and>
   get_oldest_request_time empty_connection = (Inr None, empty_connection) \<and>
   get_oldest_request_time frame_example =
     (Inr (Some [PDatetime (Datetime 2024 1 3 9 0 0 0)]), frame_example)"
proof -
  have a: "42 \<in> users_user_id ` set (users (working frame_example))"
    "7 \<notin> users_user_id ` set (users (working frame_example))"
    "requests (working empty_connection) = []"
    by (simp_all add: frame_example_def empty_connection_def empty_database_def)
  have b: "get_oldest_request_time frame_example =
     (Inr (Some [PDatetime (Datetime 2024 1 3 9 0 0 0)]), frame_example)"
    by (simp add: get_oldest_request_time_def query_no_commit_def py_next_def
        frame_example_def ts_key_def dt_key_def of_timestamp_def)
  from a b single_column_lookups_return_rows [of 42 frame_example]
    single_column_lookups_return_rows [of 7 frame_example]
    single_column_lookups_return_rows [of 7 empty_connection]
  show ?thesis by simp
qed

section \<open>The four buckets partition the requests\<close>

lemma pick_Nil: "pick [] k a = a"
  by (simp add: pick_def)

lemma pick_Cons_same: "pick ((k, n) # gs) k a = int n"
  by (simp add: pick_def)

lemma pick_Cons_other: "k' \<noteq> k \<Longrightarrow> pick ((k', n) # gs) k a = pick gs k a"
  by (simp add: pick_def)

lemma pick_fresh: "k \<notin> fst ` set gs \<Longrightarrow> pick gs k a = a"
  by (simp add: pick_def map_of_eq_None_iff [THEN iffD2])

lemma stats_loop_groups:
  assumes "distinct (map fst gs)"
  shows "stats_loop (map (\<lambda>((eng, ful), n). [PBool ful, PBool eng, PInt (int n)]) gs)
           (PInt a1, PInt a2, PInt a3, PInt a4) =
         Inr (PInt (pick gs (True, True) a1), PInt (pick gs (False, True) a2),
              PInt (pick gs (True, False) a3), PInt (pick gs (False, False) a4))"
  using assms
proof (induction gs arbitrary: a1 a2 a3 a4)
  case Nil
  then show ?case by (simp add: pick_Nil)
next
  case (Cons g gs)
  obtain eng ful n where g: "g = ((eng, ful), n)" by (metis prod.exhaust)
  from Cons.prems g have fresh: "(eng, ful) \<notin> fst ` set gs" and d: "distinct (map fst gs)"
    by simp_all
  show ?case
  proof (cases ful)
    case True
    note ful = this
    show ?thesis
    proof (cases eng)
      case True
      with ful g fresh Cons.IH [OF d] show ?thesis
        by (simp add: pick_Cons_same pick_Cons_other pick_fresh)
    next
      case False
      with ful g fresh Cons.IH [OF d] show ?thesis
        by (simp add: pick_Cons_same pick_Cons_other pick_fresh)
    qed
  next
    case False
    note ful = this
    show ?thesis
    proof (cases eng)
      case True
      with ful g fresh Cons.IH [OF d] show ?thesis
        by (simp add: pick_Cons_same pick_Cons_other pick_fresh)
    next
      case False
      with ful g fresh Cons.IH [OF d] show ?thesis
        by (simp add: pick_Cons_same pick_Cons_other pick_fresh)
    qed
  qed
qed

lemma distinct_group_keys: "distinct (map fst (group_by_count key xs))"
  by (simp add: group_by_count_def comp_def)

lemma pick_group_by_count:
  "pick (group_by_count key xs) k 0 = int (length (filter (\<lambda>x. key x = k) xs))"
proof (cases "k \<in> key ` set xs")
  case True
  then have "map_of (group_by_count key xs) k = Some (length (filter (\<lambda>x. key x = k) xs))"
    by (simp add: group_by_count_def map_of_map_restrict restrict_map_def)
  then show ?thesis by (simp add: pick_def)
next
  case False
  then have "filter (\<lambda>x. key x = k) xs = []" by (auto simp: filter_empty_conv)
  moreover from False have "k \<notin> fst ` set (group_by_count key xs)"
    by (auto simp: group_by_count_def)
  ultimately show ?thesis by (simp add: pick_fresh)
qed

lemma stats_loop_query:
  "stats_loop (stats_query rs) (PInt 0, PInt 0, PInt 0, PInt 0) =
     Inr (PInt (bucket rs True True), PInt (bucket rs False True),
          PInt (bucket rs True False), PInt (bucket rs False False))"
  unfolding stats_query_def
  by (simp add: stats_loop_groups [OF distinct_group_keys] pick_group_by_count bucket_def)

lemma buckets_partition:
  "bucket rs True True + bucket rs False True + bucket rs True False + bucket rs False False =
     int (length rs)"
proof (induction rs)
  case Nil
  then show ?case by (simp add: bucket_def)
next
  case (Cons r rs)
  then show ?case
    by (cases "is_english r"; cases "fulfill_time r = None") (simp_all add: bucket_def)
qed

lemma get_user_stats_buckets:
  "get_user_stats c uid =
     (Inr (PInt (bucket (filter (\<lambda>r. user_id r = uid) (requests (working c))) True True),
           PInt (bucket (filter (\<lambda>r. user_id r = uid) (requests (working c))) False True),
           PInt (bucket (filter (\<lambda>r. user_id r = uid) (requests (working c))) True False),
           PInt (bucket (filter (\<lambda>r. user_id r = uid) (requests (working c))) False False)),
      c)"
  by (simp add: get_user_stats_def query_no_commit_def stats_loop_query)

lemma get_global_stats_buckets:
  "get_global_stats c =
     (Inr (PInt (bucket (requests (working c)) True True),
           PInt (bucket (requests (working c)) False True),
           PInt (bucket (requests (working c)) True False),
           PInt (bucket (requests (working c)) False False)), c)"
  by (simp add: get_global_stats_def query_no_commit_def stats_loop_query)

text \<open>
  Claim C2. In every state and for every user id, \<^verbatim>\<open>get_user_stats\<close> returns four
  integers (english fulfilled, non-english fulfilled, english pending, non-english
  pending) whose sum is the number of request rows of that user, and
  \<^verbatim>\<open>get_global_stats\<close> returns four integers whose sum is the number of all request rows.
  By \<open>get_user_stats_buckets\<close> and \<open>get_global_stats_buckets\<close> each integer is the number
  of rows of its combination, 0 when the combination does not occur.
\<close>

theorem stats_sum_to_row_count:
  "(\<exists>ef nef enf nenf.
      get_user_stats c uid = (Inr (PInt ef, PInt nef, PInt enf, PInt nenf), c) \<and>
      ef + nef + enf + nenf =
        int (length (filter (\<lambda>r. user_id r = uid) (requests (working c))))) \<and>
   (\<exists>ef nef enf nenf.
      get_global_stats c = (Inr (PInt ef, PInt nef, PInt enf, PInt nenf), c) \<and>
      ef + nef + enf + nenf = int (length (requests (working c))))"
proof
  show "\<exists>ef nef enf nenf.
      get_user_stats c uid = (Inr (PInt ef, PInt nef, PInt enf, PInt nenf), c) \<and>
      ef + nef + enf + nenf =
        int (length (filter (\<lambda>r. user_id r = uid) (requests (working c))))"
    using get_user_stats_buckets [of c uid]
      buckets_partition [of "filter (\<lambda>r. user_id r = uid) (requests (working c))"]
    by blast
  show "\<exists>ef nef enf nenf.
      get_global_stats c = (Inr (PInt ef, PInt nef, PInt enf, PInt nenf), c) \<and>
      ef + nef + enf + nenf = int (length (requests (working c)))"
    using get_global_stats_buckets [of c] buckets_partition [of "requests (working c)"]
    by blast
qed

text \<open>One English fulfilled request and one non-English pending request.\<close>

lemma stats_example:
  "get_global_stats frame_example = (Inr (PInt 1, PInt 0, PInt 0, PInt 1), frame_example)"
  by (simp add: get_global_stats_buckets bucket_def frame_example_def)

lemma stats_example_run:
  "fst (get_global_stats frame_example) = Inr (PInt 1, PInt 0, PInt 0, PInt 1)"
  by (simp add: get_global_stats_def query_no_commit_def stats_query_def group_by_count_def
      frame_example_def)

section \<open>The leaderboard counts requests per fulfiller\<close>

lemma group_by_count_member:
  "(k, n) \<in> set (group_by_count key xs) \<longleftrightarrow>
     k \<in> key ` set xs \<and> n = length (filter (\<lambda>x. key x = k) xs)"
  by (auto simp: group_by_count_def)

lemma distinct_map_insort_key:
  "distinct (map f (insort_key g x ys)) \<longleftrightarrow> f x \<notin> f ` set ys \<and> distinct (map f ys)"
  by (induction ys) (auto simp: set_insort_key)

lemma distinct_map_sort_key: "distinct (map f (sort_key g xs)) = distinct (map f xs)"
  by (induction xs) (simp_all add: distinct_map_insort_key)

lemma sum_list_map_insort_key:
  "sum_list (map h (insort_key g x ys)) = (h x :: nat) + sum_list (map h ys)"
  by (induction ys) simp_all

lemma sum_list_map_sort_key: "sum_list (map h (sort_key g xs)) = (sum_list (map h xs) :: nat)"
  by (induction xs) (simp_all add: sum_list_map_insort_key)

lemma sum_list_indicator:
  "distinct ks \<Longrightarrow>
   sum_list (map (\<lambda>k. if a = k then 1 else 0) ks) = (if a \<in> set ks then 1 else (0::nat))"
  by (induction ks) auto

lemma sum_list_group_sizes:
  assumes "distinct ks" and "key ` set xs \<subseteq> set ks"
  shows "sum_list (map (\<lambda>k. length (filter (\<lambda>x. key x = k) xs)) ks) = length xs"
  using assms(2)
proof (induction xs)
  case Nil
  then show ?case by simp
next
  case (Cons x xs)
  have "sum_list (map (\<lambda>k. length (filter (\<lambda>y. key y = k) (x # xs))) ks) =
        sum_list (map (\<lambda>k. (if key x = k then 1 else 0) +
                             length (filter (\<lambda>y. key y = k) xs)) ks)"
    by (intro arg_cong [where f = sum_list] map_cong) simp_all
  also have "\<dots> = sum_list (map (\<lambda>k. if key x = k then 1 else 0) ks) +
                   sum_list (map (\<lambda>k. length (filter (\<lambda>y. key y = k) xs)) ks)"
    by (simp add: sum_list_addf)
  also have "\<dots> = 1 + length xs"
    using Cons assms(1) by (simp add: sum_list_indicator)
  finally show ?case by simp
qed

lemma sum_list_group_by_count: "sum_list (map snd (group_by_count key xs)) = length xs"
proof -
  have "map snd (group_by_count key xs) =
        map (\<lambda>k. length (filter (\<lambda>x. key x = k) xs)) (remdups (map key xs))"
    by (simp add: group_by_count_def comp_def)
  then show ?thesis by (simp add: sum_list_group_sizes)
qed

lemma fulfilled_rows_agree:
  assumes "group_inv d"
  shows "filter (\<lambda>r. fulfilled_by r \<noteq> None) (requests d) =
         filter (\<lambda>r. fulfill_time r \<noteq> None) (requests d)"
  using assms
  by (intro filter_cong) (auto simp: group_inv_def list_all_iff group_ok_def)

lemma leaderboard_rows:
  assumes "None \<notin> fst ` set G"
  shows "map (\<lambda>(fby, n). [PInt (int n), of_bigint fby]) G =
         map (\<lambda>(n, f). [PInt (int n), PInt f]) (map (\<lambda>(fby, n). (n, the fby)) G)"
  using assms
proof (induction G)
  case Nil
  then show ?case by simp
next
  case (Cons g G)
  obtain k n where g: "g = (k, n)" by (cases g)
  with Cons.prems have "k \<noteq> None" by auto
  then obtain f where "k = Some f" by auto
  with g Cons show ?case by (simp add: of_bigint_def)
qed

lemma leaderboard_distinct:
  assumes "None \<notin> fst ` set G" and "distinct (map fst G)"
  shows "distinct (map snd (map (\<lambda>(fby, n). (n, the fby)) G))"
proof -
  have "inj_on the (set (map fst G))"
  proof (rule inj_onI)
    fix x y assume "x \<in> set (map fst G)" "y \<in> set (map fst G)" "the x = the y"
    with assms(1) show "x = y" by (cases x; cases y) auto
  qed
  with assms(2) have "distinct (map the (map fst G))"
    by (simp only: distinct_map)
  moreover have "map snd (map (\<lambda>(fby, n). (n, the fby)) G) = map the (map fst G)"
    by (induction G) auto
  ultimately show ?thesis by (simp only:)
qed

lemma leaderboard_member:
  assumes "None \<notin> fst ` set G"
  shows "(n, f) \<in> set (map (\<lambda>(fby, n). (n, the fby)) G) \<longleftrightarrow> (Some f, n) \<in> set G"
proof
  assume "(n, f) \<in> set (map (\<lambda>(fby, n). (n, the fby)) G)"
  then obtain k where k: "(k, n) \<in> set G" and "f = the k" by auto
  moreover from k assms have "k \<noteq> None" by (metis fst_conv image_eqI)
  ultimately show "(Some f, n) \<in> set G" by auto
next
  assume "(Some f, n) \<in> set G"
  then have "(\<lambda>(fby, n). (n, the fby)) (Some f, n) \<in> set (map (\<lambda>(fby, n). (n, the fby)) G)"
    unfolding set_map by (rule imageI)
  then show "(n, f) \<in> set (map (\<lambda>(fby, n). (n, the fby)) G)" by simp
qed

lemma fulfiller_groups_no_null:
  "None \<notin> fst ` set (group_by_count fulfilled_by
                        (filter (\<lambda>r. fulfilled_by r \<noteq> None) rs))"
  by (auto simp: group_by_count_def)

lemma fulfiller_group_member:
  "(Some f, n) \<in> set (group_by_count fulfilled_by (filter (\<lambda>r. fulfilled_by r \<noteq> None) rs))
   \<longleftrightarrow> (\<exists>r \<in> set rs. fulfilled_by r = Some f) \<and>
         n = length (filter (\<lambda>r. fulfilled_by r = Some f) rs)"
proof -
  have "filter (\<lambda>r. fulfilled_by r = Some f) (filter (\<lambda>r. fulfilled_by r \<noteq> None) rs) =
        filter (\<lambda>r. fulfilled_by r = Some f) rs"
    by (simp add: conj_commute) (rule filter_cong, auto)
  moreover have "Some f \<in> fulfilled_by ` set (filter (\<lambda>r. fulfilled_by r \<noteq> None) rs) \<longleftrightarrow>
        (\<exists>r \<in> set rs. fulfilled_by r = Some f)"
    by (auto simp: image_iff)
  ultimately show ?thesis by (simp add: group_by_count_member)
qed

lemma leaderboard_sorted:
  fixes G :: "(int option \<times> nat) list"
  shows "sorted (rev (map fst (map (\<lambda>(fby, n). (n, the fby)) (rev (sort_key snd G)))))"
proof -
  have eq: "map fst (map (\<lambda>(fby, n). (n, the fby)) xs) = map snd xs"
    for xs :: "(int option \<times> nat) list"
    by (induction xs) auto
  show ?thesis unfolding eq by (simp add: rev_map sorted_sort_key)
qed

lemma leaderboard_total:
  fixes G :: "(int option \<times> nat) list"
  shows "sum_list (map fst (map (\<lambda>(fby, n). (n, the fby)) (rev (sort_key snd G)))) =
     sum_list (map snd G)"
proof -
  have eq: "map fst (map (\<lambda>(fby, n). (n, the fby)) xs) = map snd xs"
    for xs :: "(int option \<times> nat) list"
    by (induction xs) auto
  show ?thesis unfolding eq by (simp add: rev_map [symmetric] sum_list_map_sort_key)
qed

text \<open>
  Claim C5, as stated for every database state with the fulfilled requests being those
  the ledger reports as fulfilled (a fulfilment time is set, as in
  \<^verbatim>\<open>get_global_stats\<close> and \<^verbatim>\<open>get_latest_fulfilled\<close>). This fails: after
  \<^verbatim>\<open>update_fulfilled_by(2002, None)\<close> the request 1001 still has its fulfilment time,
  the statistics count it as fulfilled, and the leaderboard is empty, because the query
  selects on \<^verbatim>\<open>fulfilled_by IS NOT NULL\<close>.
\<close>

theorem leaderboard_counterexample:
  "fst (get_leaderboard (run empty_connection unattributed_calls)) = Inr [] \<and>
   requests (working (run empty_connection unattributed_calls)) =
     [\<lparr>user_id = 42, is_english = True, message_id = 1001,
       req_time = Some (Datetime 2024 1 3 9 0 0 0), fulfill_message_id = Some 2002,
       fulfill_time = Some (Datetime 2024 1 4 9 0 0 0), fulfilled_by = None\<rparr>] \<and>
   fst (get_global_stats (run empty_connection unattributed_calls)) =
     Inr (PInt 1, PInt 0, PInt 0, PInt 0)"
proof -
  have rows: "requests (working (run empty_connection unattributed_calls)) =
     [\<lparr>user_id = 42, is_english = True, message_id = 1001,
       req_time = Some (Datetime 2024 1 3 9 0 0 0), fulfill_message_id = Some 2002,
       fulfill_time = Some (Datetime 2024 1 4 9 0 0 0), fulfilled_by = None\<rparr>]"
    by (simp add: unattributed_calls_def add_user_def register_request_def
        register_request_fulfillment_def update_fulfilled_by_def execute_and_commit_def
        insert_user_def insert_request_def commit_def empty_connection_def
        empty_database_def sql_eq_def in_bigint_def bigint_ok_def)
  have board: "fst (get_leaderboard (run empty_connection unattributed_calls)) = Inr []"
    by (simp add: get_leaderboard_def query_and_commit_def group_by_count_def rows)
  have stats: "fst (get_global_stats (run empty_connection unattributed_calls)) =
     Inr (PInt 1, PInt 0, PInt 0, PInt 0)"
    by (simp add: get_global_stats_buckets bucket_def rows)
  from board rows stats show ?thesis by (intro conjI)
qed

text \<open>
  Claim C5, amended: in every state \<^verbatim>\<open>get_leaderboard\<close> returns normally the list of
  \<^verbatim>\<open>(count, fulfilled_by)\<close> tuples obtained by restricting to the requests whose
  \<^verbatim>\<open>fulfilled_by\<close> is not null and grouping by \<^verbatim>\<open>fulfilled_by\<close>, ordered descending
  by count: the counts never increase along the list, no fulfiller id occurs twice, and
  the tuples are exactly the pairs of an id that is the \<^verbatim>\<open>fulfilled_by\<close> of some
  request and the number of requests with that \<^verbatim>\<open>fulfilled_by\<close>. In every state whose
  requests have their three fulfilment fields all null or all set, these are the
  fulfilled requests: the tuples are the fulfillers of requests with a fulfilment time
  with the number of such requests each, and the counts add up to the number of
  requests with a fulfilment time.
\<close>

theorem leaderboard_groups_by_fulfiller:
  "\<exists>gs. get_leaderboard c = (Inr (map (\<lambda>(n, f). [PInt (int n), PInt f]) gs), commit c) \<and>
     sorted (rev (map fst gs)) \<and>
     distinct (map snd gs) \<and>
     (\<forall>n f. (n, f) \<in> set gs \<longleftrightarrow>
        (\<exists>r \<in> set (requests (working c)). fulfilled_by r = Some f) \<and>
        n = length (filter (\<lambda>r. fulfilled_by r = Some f) (requests (working c)))) \<and>
     (group_inv (working c) \<longrightarrow>
        (\<forall>n f. (n, f) \<in> set gs \<longleftrightarrow>
           (\<exists>r \<in> set (requests (working c)).
              fulfill_time r \<noteq> None \<and> fulfilled_by r = Some f) \<and>
           n = length (filter (\<lambda>r. fulfill_time r \<noteq> None \<and> fulfilled_by r = Some f)
                         (requests (working c)))) \<and>
        sum_list (map fst gs) =
          length (filter (\<lambda>r. fulfill_time r \<noteq> None) (requests (working c))))"
proof -
  define G where
    "G = group_by_count fulfilled_by
           (filter (\<lambda>r. fulfilled_by r \<noteq> None) (requests (working c)))"
  define S where "S = rev (sort_key snd G)"
  define gs where "gs = map (\<lambda>(fby, n). (n, the fby)) S"
  have nonnull: "None \<notin> fst ` set G"
    unfolding G_def by (rule fulfiller_groups_no_null)
  then have nonnull_S: "None \<notin> fst ` set S"
    by (simp add: S_def)
  have res: "get_leaderboard c = (Inr (map (\<lambda>(n, f). [PInt (int n), PInt f]) gs), commit c)"
    unfolding get_leaderboard_def query_and_commit_def gs_def
    using leaderboard_rows [OF nonnull_S] by (simp add: S_def G_def)
  have desc: "sorted (rev (map fst gs))"
    unfolding gs_def S_def by (rule leaderboard_sorted)
  have "distinct (map fst S)"
    unfolding S_def G_def
    by (simp add: rev_map [symmetric] distinct_map_sort_key distinct_group_keys)
  with nonnull_S have dist: "distinct (map snd gs)"
    unfolding gs_def by (rule leaderboard_distinct)
  have mem: "(n, f) \<in> set gs \<longleftrightarrow>
        (\<exists>r \<in> set (requests (working c)). fulfilled_by r = Some f) \<and>
        n = length (filter (\<lambda>r. fulfilled_by r = Some f) (requests (working c)))" for n f
  proof -
    have "(n, f) \<in> set gs \<longleftrightarrow> (Some f, n) \<in> set S"
      unfolding gs_def by (rule leaderboard_member [OF nonnull_S])
    also have "\<dots> \<longleftrightarrow> (Some f, n) \<in> set G"
      by (simp add: S_def)
    also have "\<dots> \<longleftrightarrow> (\<exists>r \<in> set (requests (working c)). fulfilled_by r = Some f) \<and>
        n = length (filter (\<lambda>r. fulfilled_by r = Some f) (requests (working c)))"
      unfolding G_def by (rule fulfiller_group_member)
    finally show ?thesis .
  qed
  have "sum_list (map fst gs) = sum_list (map snd G)"
    unfolding gs_def S_def by (rule leaderboard_total)
  also have "\<dots> = length (filter (\<lambda>r. fulfilled_by r \<noteq> None) (requests (working c)))"
    unfolding G_def by (rule sum_list_group_by_count)
  finally have total:
    "sum_list (map fst gs) =
       length (filter (\<lambda>r. fulfilled_by r \<noteq> None) (requests (working c)))" .
  have inv_mem: "(n, f) \<in> set gs \<longleftrightarrow>
           (\<exists>r \<in> set (requests (working c)).
              fulfill_time r \<noteq> None \<and> fulfilled_by r = Some f) \<and>
           n = length (filter (\<lambda>r. fulfill_time r \<noteq> None \<and> fulfilled_by r = Some f)
                         (requests (working c)))"
    if inv: "group_inv (working c)" for n f
  proof -
    have timed: "fulfill_time r \<noteq> None"
      if "r \<in> set (requests (working c))" "fulfilled_by r = Some f" for r
      using inv that by (auto simp: group_inv_def list_all_iff group_ok_def)
    have "filter (\<lambda>r. fulfill_time r \<noteq> None \<and> fulfilled_by r = Some f)
            (requests (working c)) =
          filter (\<lambda>r. fulfilled_by r = Some f) (requests (working c))"
      using timed by (intro filter_cong) auto
    moreover have "(\<exists>r \<in> set (requests (working c)).
              fulfill_time r \<noteq> None \<and> fulfilled_by r = Some f) \<longleftrightarrow>
          (\<exists>r \<in> set (requests (working c)). fulfilled_by r = Some f)"
      using timed by blast
    ultimately show ?thesis using mem [of n f] by simp
  qed
  have inv_total: "sum_list (map fst gs) =
          length (filter (\<lambda>r. fulfill_time r \<noteq> None) (requests (working c)))"
    if "group_inv (working c)"
    using total fulfilled_rows_agree [OF that] by simp
  show ?thesis
  proof (intro exI conjI allI impI)
    show "get_leaderboard c = (Inr (map (\<lambda>(n, f). [PInt (int n), PInt f]) gs), commit c)"
      by (rule res)
    show "sorted (rev (map fst gs))" by (rule desc)
    show "distinct (map snd gs)" by (rule dist)
    show "(n, f) \<in> set gs \<longleftrightarrow>
        (\<exists>r \<in> set (requests (working c)). fulfilled_by r = Some f) \<and>
        n = length (filter (\<lambda>r. fulfilled_by r = Some f) (requests (working c)))" for n f
      by (rule mem)
    show "(n, f) \<in> set gs \<longleftrightarrow>
           (\<exists>r \<in> set (requests (working c)).
              fulfill_time r \<noteq> None \<and> fulfilled_by r = Some f) \<and>
           n = length (filter (\<lambda>r. fulfill_time r \<noteq> None \<and> fulfilled_by r = Some f)
                         (requests (working c)))"
      if "group_inv (working c)" for n f
      using that by (rule inv_mem)
    show "sum_list (map fst gs) =
          length (filter (\<lambda>r. fulfill_time r \<noteq> None) (requests (working c)))"
      if "group_inv (working c)"
      using that by (rule inv_total)
  qed
qed

lemma leaderboard_example_rows:
  "fst (get_leaderboard leaderboard_example) = Inr [[PInt 2, PInt 8], [PInt 1, PInt 7]]"
  by (simp add: get_leaderboard_def query_and_commit_def group_by_count_def
      leaderboard_example_def of_bigint_def)

theorem leaderboard_groups_by_fulfiller_witness:
  "group_inv (working leaderboard_example) \<and>
   fst (get_leaderboard leaderboard_example) = Inr [[PInt 2, PInt 8], [PInt 1, PInt 7]] \<and>
   (\<exists>gs. get_leaderboard leaderboard_example =
           (Inr (map (\<lambda>(n, f). [PInt (int n), PInt f]) gs), commit leaderboard_example) \<and>
         sum_list (map fst gs) = 3)"
proof -
  have inv: "group_inv (working leaderboard_example)"
    by (simp add: leaderboard_example_def group_inv_def group_ok_def)
  have n: "length (filter (\<lambda>r. fulfill_time r \<noteq> None)
             (requests (working leaderboard_example))) = 3"
    by (simp add: leaderboard_example_def)
  from leaderboard_groups_by_fulfiller [of leaderboard_example] inv n
  have "\<exists>gs. get_leaderboard leaderboard_example =
           (Inr (map (\<lambda>(n, f). [PInt (int n), PInt f]) gs), commit leaderboard_example) \<and>
         sum_list (map fst gs) = 3"
    by auto
  with inv leaderboard_example_rows show ?thesis by simp
qed

section \<open>The weekly window includes its end boundary\<close>

lemma get_weekly_stats_one_week:
  assumes "plus_one_day week_end = Inr week_end'"
  shows "fst (get_weekly_stats c [(week_start, week_end, label)]) =
           Inr [label \<mapsto>
             (PInt (int (length (filter
                (\<lambda>r. case req_time r of None \<Rightarrow> False
                     | Some t \<Rightarrow> dt_le week_start t \<and> dt_le t week_end')
                (requests (working c))))),
              PInt (int (length (filter
                (\<lambda>r. case fulfill_time r of None \<Rightarrow> False
                     | Some t \<Rightarrow> dt_le week_start t \<and> dt_le t week_end')
                (requests (working c))))))]"
  using assms
  by (simp add: get_weekly_stats_def query_and_commit_def count_between_def fetchone_0_def)

text \<open>
  Claim C3. For the week from 2024-01-01 to 2024-01-07 labelled W1 and one request
  opened 2024-01-03 and fulfilled 2024-01-10, \<^verbatim>\<open>get_weekly_stats\<close> gives
  \<^verbatim>\<open>W1 = (1, 0)\<close>, as claimed. The claimed window is half-open, with the computed end
  \<^verbatim>\<open>week_end + 1 day\<close> excluded; the query compares with \<^verbatim>\<open><=\<close> there, so the
  boundary instant belongs to the window: a request opened at 2024-01-08 00:00:00 is
  counted as opened in W1, and once more in the following week W2 that starts on
  2024-01-08. The lemma \<open>get_weekly_stats_one_week\<close> gives the closed window for every
  state.
\<close>

theorem weekly_stats_count_the_end_boundary:
  "(case fst (get_weekly_stats scenario_e [week_1]) of
      Inl ex \<Rightarrow> False
    | Inr results \<Rightarrow> results ''W1'' = Some (PInt 1, PInt 0)) \<and>
   plus_one_day (Datetime 2024 1 7 0 0 0 0) = Inr (Datetime 2024 1 8 0 0 0 0) \<and>
   (case fst (get_weekly_stats midnight_request [week_1, week_2]) of
      Inl ex \<Rightarrow> False
    | Inr results \<Rightarrow>
        results ''W1'' = Some (PInt 1, PInt 0) \<and> results ''W2'' = Some (PInt 1, PInt 0))"
  by (simp add: get_weekly_stats_def query_and_commit_def count_between_def fetchone_0_def
      plus_one_day_def days_in_month_def is_leap_def dt_le_def dt_key_def week_1_def
      week_2_def scenario_e_def midnight_request_def)

section \<open>The backup export loses data\<close>

declare show_nat.simps [simp del]

lemma show_nat_numeral:
  "show_nat (numeral k) =
     (if (numeral k :: nat) < 10 then [''0123456789'' ! numeral k]
      else show_nat (numeral k div 10) @ [''0123456789'' ! (numeral k mod 10)])"
  by (rule show_nat.simps)

lemma show_nat_0: "show_nat 0 = ''0''"
  by (simp add: show_nat.simps)

lemma show_nat_1: "show_nat (Suc 0) = ''1''"
  by (simp add: show_nat.simps)

text \<open>The export never depends on the microseconds of a stored timestamp.\<close>

lemma strftime_sql_ignores_microseconds:
  "strftime_sql (Datetime y m d h mi s us) = strftime_sql (Datetime y m d h mi s 0)"
  by (simp add: strftime_sql_def)

lemma backup_ignores_microseconds:
  "fst (get_backup_data (backup_example us) t) = fst (get_backup_data (backup_example 0) t)"
  by (simp add: get_backup_data_def query_and_commit_def table_dump_def select_all_def
      backup_example_def of_timestamp_def strftime_sql_def)

text \<open>
  Claim C4. Replaying the emitted statements would have to give back the dataset that
  was exported. The export of a dataset with user \<^verbatim>\<open>(42, 'O''Brien', NULL)\<close> and a
  request opened at 2024-01-03 10:20:30.123456 is computed below. The timestamp is
  written without its microseconds, and the same text is the export of the dataset whose
  request was opened at 2024-01-03 10:20:30.000000, so no replay can give back both
  datasets. The name is written by \<^verbatim>\<open>repr\<close> between double quotes, which in the
  \<^verbatim>\<open>INSERT\<close> statement is a quoted identifier, not a text value.
\<close>

theorem backup_export_is_not_replayable:
  "fst (get_backup_data (backup_example 123456) (Datetime 2024 1 4 5 6 7 0)) =
     Inr (''database_backup_04-01-2024-05:06:07.zip'',
          [(''users.sql'',
            ''INSERT INTO users (user_id, name, user_name) VALUES (42, '' @ [CHR 0x22] @
            ''O'' @ [CHR 0x27] @ ''Brien'' @ [CHR 0x22] @ '', NULL);'' @ [CHR 0x0A]),
           (''requests.sql'',
            ''INSERT INTO requests (user_id, is_english, message_id, req_time, '' @
            ''fulfill_message_id, fulfill_time, fulfilled_by) VALUES (42, True, 1001, '' @
            [CHR 0x27] @ ''2024-01-03 10:20:30'' @ [CHR 0x27] @
            '', NULL, NULL, NULL);'' @ [CHR 0x0A])]) \<and>
   fst (get_backup_data (backup_example 0) (Datetime 2024 1 4 5 6 7 0)) =
     fst (get_backup_data (backup_example 123456) (Datetime 2024 1 4 5 6 7 0)) \<and>
   requests (working (backup_example 0)) \<noteq> requests (working (backup_example 123456)) \<and>
   list_all (\<lambda>r. case req_time r of None \<Rightarrow> True | Some t \<Rightarrow> valid_datetime t)
     (requests (working (backup_example 123456)))"
proof -
  have dump: "fst (get_backup_data (backup_example 123456) (Datetime 2024 1 4 5 6 7 0)) =
     Inr (''database_backup_04-01-2024-05:06:07.zip'',
          [(''users.sql'',
            ''INSERT INTO users (user_id, name, user_name) VALUES (42, '' @ [CHR 0x22] @
            ''O'' @ [CHR 0x27] @ ''Brien'' @ [CHR 0x22] @ '', NULL);'' @ [CHR 0x0A]),
           (''requests.sql'',
            ''INSERT INTO requests (user_id, is_english, message_id, req_time, '' @
            ''fulfill_message_id, fulfill_time, fulfilled_by) VALUES (42, True, 1001, '' @
            [CHR 0x27] @ ''2024-01-03 10:20:30'' @ [CHR 0x27] @
            '', NULL, NULL, NULL);'' @ [CHR 0x0A])])"
    by (simp add: get_backup_data_def query_and_commit_def table_dump_def select_all_def
        strftime_sql_def strftime_name_def pad_left_def repr_int_def repr_bool_def
        repr_str_def repr_char_def hex2_def of_text_def of_bigint_def of_timestamp_def
        backup_example_def Let_def show_nat_numeral show_nat_0 show_nat_1)
  have same: "fst (get_backup_data (backup_example 0) (Datetime 2024 1 4 5 6 7 0)) =
     fst (get_backup_data (backup_example 123456) (Datetime 2024 1 4 5 6 7 0))"
    by (simp add: backup_ignores_microseconds [of 123456])
  have differ:
    "requests (working (backup_example 0)) \<noteq> requests (working (backup_example 123456))"
    by (simp add: backup_example_def)
  have valid: "list_all (\<lambda>r. case req_time r of None \<Rightarrow> True | Some t \<Rightarrow> valid_datetime t)
     (requests (working (backup_example 123456)))"
    by (simp add: backup_example_def valid_datetime_def days_in_month_def)
  from dump same differ valid show ?thesis by (intro conjI)
qed

end
